theory Spec2Isabelle
  imports Main "HOL-Library.Word"
begin

unbundle bit_operations_syntax

section \<open>Common.h: the handle and dplhandle templates\<close>

text \<open>
  A wrapper object of class \<open>handle<T, INVAL>\<close> has one data member, \<open>m_h\<close>.
  Derived classes add members (\<open>event_session\<close> adds \<open>m_prop\<close>), which is what
  the extensible record gives.  Objects live at addresses, so that the two
  operands of an assignment may be the same object: the code compares
  \<open>this\<close> with \<open>std::addressof(h)\<close>.  The native calls made so far are
  kept in a log, oldest first.
\<close>

record 'h handle =
  m_h :: 'h

record ('o, 'c) world =
  objs :: "nat \<Rightarrow> 'o"
  calls :: "'c list"

text \<open>
  An assertion that fails, and behaviour that C++ leaves undefined, such as
  reading through a null pointer, end a run.
\<close>

datatype error = AssertFailed | UndefinedBehaviour

definition get_m_h :: "nat \<Rightarrow> (('h, 'm) handle_scheme, 'c) world \<Rightarrow> 'h" where
  "get_m_h this w = m_h (objs w this)"

definition set_m_h ::
  "nat \<Rightarrow> 'h \<Rightarrow> (('h, 'm) handle_scheme, 'c) world \<Rightarrow> (('h, 'm) handle_scheme, 'c) world" where
  "set_m_h this h w = w\<lparr>objs := (objs w)(this := (objs w this)\<lparr>m_h := h\<rparr>)\<rparr>"

text \<open>
  \<open>free_internal\<close> is pure virtual.  Every override in the repository makes one
  native call on the object's members; \<open>fi\<close> maps the object to that call.
\<close>

definition free_internal ::
  "(('h, 'm) handle_scheme \<Rightarrow> 'c) \<Rightarrow> nat \<Rightarrow> (('h, 'm) handle_scheme, 'c) world
     \<Rightarrow> (('h, 'm) handle_scheme, 'c) world" where
  "free_internal fi this w = w\<lparr>calls := calls w @ [fi (objs w this)]\<rparr>"

text \<open>\<open>handle() : m_h(invalid)\<close> and \<open>handle(handle_type h) : m_h(h)\<close>.\<close>

definition handle_ctor ::
  "'h \<Rightarrow> nat \<Rightarrow> (('h, 'm) handle_scheme, 'c) world \<Rightarrow> (('h, 'm) handle_scheme, 'c) world" where
  "handle_ctor inval this w = set_m_h this inval w"

definition handle_ctor_raw ::
  "'h \<Rightarrow> nat \<Rightarrow> (('h, 'm) handle_scheme, 'c) world \<Rightarrow> (('h, 'm) handle_scheme, 'c) world" where
  "handle_ctor_raw h this w = set_m_h this h w"

text \<open>Move constructor: \<open>m_h = h.m_h; h.m_h = invalid;\<close>\<close>

definition handle_ctor_move ::
  "'h \<Rightarrow> nat \<Rightarrow> nat \<Rightarrow> (('h, 'm) handle_scheme, 'c) world \<Rightarrow> (('h, 'm) handle_scheme, 'c) world" where
  "handle_ctor_move inval this h w =
     (let w1 = set_m_h this (get_m_h h w) w
      in set_m_h h inval w1)"








text \<open>\<open>attach\<close>: \<open>if (m_h != invalid) free_internal(); m_h = h;\<close>\<close>

definition attach ::
  "'h \<Rightarrow> (('h, 'm) handle_scheme \<Rightarrow> 'c) \<Rightarrow> 'h \<Rightarrow> nat
     \<Rightarrow> (('h, 'm) handle_scheme, 'c) world \<Rightarrow> (('h, 'm) handle_scheme, 'c) world" where
  "attach inval fi h this w =
     (let w1 = (if get_m_h this w \<noteq> inval then free_internal fi this w else w)
      in set_m_h this h w1)"

text \<open>\<open>operator=(handle_type h)\<close>: \<open>attach(h); return *this;\<close>\<close>

definition handle_assign_raw ::
  "'h \<Rightarrow> (('h, 'm) handle_scheme \<Rightarrow> 'c) \<Rightarrow> 'h \<Rightarrow> nat
     \<Rightarrow> (('h, 'm) handle_scheme, 'c) world \<Rightarrow> (('h, 'm) handle_scheme, 'c) world" where
  "handle_assign_raw inval fi h this w = attach inval fi h this w"

text \<open>
  Move assignment:
  \<open>if (this != std::addressof(h)) { if (m_h != invalid) free_internal(); m_h = h.m_h; h.m_h = invalid; }\<close>
\<close>

definition handle_assign_move ::
  "'h \<Rightarrow> (('h, 'm) handle_scheme \<Rightarrow> 'c) \<Rightarrow> nat \<Rightarrow> nat
     \<Rightarrow> (('h, 'm) handle_scheme, 'c) world \<Rightarrow> (('h, 'm) handle_scheme, 'c) world" where
  "handle_assign_move inval fi this h w =
     (if this \<noteq> h then
        (let w1 = (if get_m_h this w \<noteq> inval then free_internal fi this w else w);
             w2 = set_m_h this (get_m_h h w1) w1
         in set_m_h h inval w2)
      else w)"

text \<open>\<open>detach\<close>: \<open>handle_type h = m_h; m_h = invalid; return h;\<close>\<close>

definition detach ::
  "'h \<Rightarrow> nat \<Rightarrow> (('h, 'm) handle_scheme, 'c) world \<Rightarrow> 'h \<times> (('h, 'm) handle_scheme, 'c) world" where
  "detach inval this w = (get_m_h this w, set_m_h this inval w)"

text \<open>\<open>free\<close>: \<open>if (m_h != invalid) { free_internal(); m_h = invalid; }\<close>\<close>

definition free ::
  "'h \<Rightarrow> (('h, 'm) handle_scheme \<Rightarrow> 'c) \<Rightarrow> nat
     \<Rightarrow> (('h, 'm) handle_scheme, 'c) world \<Rightarrow> (('h, 'm) handle_scheme, 'c) world" where
  "free inval fi this w =
     (if get_m_h this w \<noteq> inval then set_m_h this inval (free_internal fi this w) else w)"

subsection \<open>dplhandle\<close>

text \<open>
  \<open>duplicate_internal\<close> is pure virtual as well; its contract in Common.h is to
  throw on failure rather than return an invalid handle.  \<open>dup\<close> gives its
  result (\<open>None\<close> when it throws) and \<open>di\<close> the native call it makes.  An
  exception leaving \<open>duplicate\<close> propagates, one leaving the \<open>noexcept\<close>
  copy assignment terminates the program: both are \<open>None\<close> here.
\<close>

definition duplicate_internal ::
  "('h \<Rightarrow> 'c) \<Rightarrow> ('h \<Rightarrow> 'h option) \<Rightarrow> 'h \<Rightarrow> (('h, 'm) handle_scheme, 'c) world
     \<Rightarrow> ('h \<times> (('h, 'm) handle_scheme, 'c) world) option" where
  "duplicate_internal di dup h w =
     (case dup h of
        None \<Rightarrow> None
      | Some h_new \<Rightarrow> Some (h_new, w\<lparr>calls := calls w @ [di h]\<rparr>))"

text \<open>Copy assignment of \<open>dplhandle\<close> (Common.h, lines 1337 to 1355).\<close>

definition dplhandle_assign_copy ::
  "'h \<Rightarrow> (('h, 'm) handle_scheme \<Rightarrow> 'c) \<Rightarrow> ('h \<Rightarrow> 'c) \<Rightarrow> ('h \<Rightarrow> 'h option) \<Rightarrow> nat \<Rightarrow> nat
     \<Rightarrow> (('h, 'm) handle_scheme, 'c) world \<Rightarrow> (('h, 'm) handle_scheme, 'c) world option" where
  "dplhandle_assign_copy inval fi di dup this h w =
     (if this \<noteq> h then
        (if get_m_h h w \<noteq> inval then
           (case duplicate_internal di dup (get_m_h h w) w of
              None \<Rightarrow> None
            | Some (h_new, w1) \<Rightarrow>
                (let w2 = (if get_m_h this w1 \<noteq> inval then free_internal fi this w1 else w1)
                 in Some (set_m_h this h_new w2)))
         else
           (let w1 = (if get_m_h this w \<noteq> inval then free_internal fi this w else w)
            in Some (set_m_h this inval w1)))
      else Some w)"

text \<open>\<open>duplicate\<close>: \<open>return m_h != invalid ? duplicate_internal(m_h) : invalid;\<close>\<close>

definition duplicate ::
  "'h \<Rightarrow> ('h \<Rightarrow> 'c) \<Rightarrow> ('h \<Rightarrow> 'h option) \<Rightarrow> nat \<Rightarrow> (('h, 'm) handle_scheme, 'c) world
     \<Rightarrow> ('h \<times> (('h, 'm) handle_scheme, 'c) world) option" where
  "duplicate inval di dup this w =
     (if get_m_h this w \<noteq> inval then duplicate_internal di dup (get_m_h this w) w
      else Some (inval, w))"

section \<open>The wrapper classes of ETW.h and COM.h\<close>

text \<open>
  \<open>REGHANDLE\<close> and \<open>TRACEHANDLE\<close> are 64-bit integers, a COM interface
  pointer is 64 bits wide on the x64 build, \<open>ULONG\<close> and \<open>HRESULT\<close> are
  32 bits.  \<open>EVENT_TRACE_PROPERTIES\<close> is a buffer of bytes.
\<close>

type_synonym REGHANDLE = "64 word"
type_synonym TRACEHANDLE = "64 word"
type_synonym LPVOID = "64 word"
type_synonym ULONG = "32 word"
type_synonym HRESULT = "32 word"

text \<open>
  \<open>EVENT_TRACE_PROPERTIES\<close> is a buffer that starts with a structure of the
  Windows SDK; the code reads its member \<open>LoggerNameOffset\<close>.
\<close>

record EVENT_TRACE_PROPERTIES =
  LoggerNameOffset :: ULONG
  buffer :: "8 word list"

text \<open>
  The release calls.  \<open>ControlTrace_STOP h name prop\<close> is
  \<open>ControlTrace(h, name, prop, EVENT_TRACE_CONTROL_STOP)\<close>, with \<open>name\<close> given
  by its offset in the buffer \<open>prop\<close> points to.
\<close>

datatype native_call =
    EventUnregister REGHANDLE
  | CloseTrace TRACEHANDLE
  | ControlTrace_STOP TRACEHANDLE ULONG EVENT_TRACE_PROPERTIES
  | IUnknown_Release LPVOID

record 'h event_session_obj = "'h handle" +
  m_prop :: "EVENT_TRACE_PROPERTIES option"

text \<open>
  \<open>ERROR_SUCCESS\<close> and \<open>INVALID_PROCESSTRACE_HANDLE\<close> are constants of the
  Windows SDK: 0, and \<open>(TRACEHANDLE)INVALID_HANDLE_VALUE\<close>, all bits set.
\<close>

definition ERROR_SUCCESS :: ULONG where
  "ERROR_SUCCESS = 0"

definition INVALID_PROCESSTRACE_HANDLE :: TRACEHANDLE where
  "INVALID_PROCESSTRACE_HANDLE = - 1"

text \<open>\<open>SUCCEEDED(hr)\<close> is \<open>((HRESULT)(hr)) >= 0\<close>.\<close>

definition SUCCEEDED :: "HRESULT \<Rightarrow> bool" where
  "SUCCEEDED hr = (0 \<le>s hr)"

subsection \<open>event_provider : handle<REGHANDLE, NULL>\<close>

definition event_provider_free_internal :: "(REGHANDLE, 'm) handle_scheme \<Rightarrow> native_call" where
  "event_provider_free_internal ob = EventUnregister (m_h ob)"

text \<open>Destructor: \<open>if (m_h != invalid) free_internal();\<close>\<close>

definition event_provider_dtor ::
  "nat \<Rightarrow> ((REGHANDLE, 'm) handle_scheme, native_call) world
     \<Rightarrow> ((REGHANDLE, 'm) handle_scheme, native_call) world" where
  "event_provider_dtor this w =
     (if get_m_h this w \<noteq> 0 then free_internal event_provider_free_internal this w else w)"

text \<open>
  \<open>create\<close>: the result of \<open>EventRegister\<close> is its return value \<open>ulRes\<close> and the
  value \<open>h\<close> of the local variable it was given the address of.
\<close>

definition event_provider_create ::
  "ULONG \<times> REGHANDLE \<Rightarrow> nat \<Rightarrow> ((REGHANDLE, 'm) handle_scheme, native_call) world
     \<Rightarrow> ULONG \<times> ((REGHANDLE, 'm) handle_scheme, native_call) world" where
  "event_provider_create EventRegister this w =
     (let (ulRes, h) = EventRegister;
          w1 = (if ulRes = ERROR_SUCCESS then attach 0 event_provider_free_internal h this w else w)
      in (ulRes, w1))"

subsection \<open>event_session : handle<TRACEHANDLE, 0>\<close>

text \<open>
  \<open>name()\<close>:
  \<open>prop = m_prop.get(); return (LPCTSTR)((LPCBYTE)prop + prop->LoggerNameOffset);\<close>
  It reads \<open>LoggerNameOffset\<close> through \<open>m_prop\<close>, which is undefined when
  \<open>m_prop\<close> is null.
\<close>

definition event_session_name :: "'h event_session_obj \<Rightarrow> error + ULONG" where
  "event_session_name ob =
     (case m_prop ob of
        None \<Rightarrow> Inl UndefinedBehaviour
      | Some prop \<Rightarrow> Inr (LoggerNameOffset prop))"

text \<open>
  \<open>free_internal\<close> is \<open>ControlTrace(m_h, name(), m_prop.get(), EVENT_TRACE_CONTROL_STOP)\<close>:
  unlike the overrides of the other classes it can fail before it makes its
  call, so the member functions of the base class are written out here for
  an \<open>event_session\<close>, with this override in the place of \<open>free_internal()\<close>.
\<close>

definition event_session_free_internal ::
  "nat \<Rightarrow> (TRACEHANDLE event_session_obj, native_call) world
     \<Rightarrow> error + (TRACEHANDLE event_session_obj, native_call) world" where
  "event_session_free_internal this w =
     (case event_session_name (objs w this) of
        Inl e \<Rightarrow> Inl e
      | Inr nm \<Rightarrow>
          (case m_prop (objs w this) of
             None \<Rightarrow> Inl UndefinedBehaviour
           | Some prop \<Rightarrow> Inr (w\<lparr>calls := calls w @ [ControlTrace_STOP (get_m_h this w) nm prop]\<rparr>)))"

text \<open>Destructor: \<open>if (m_h != invalid) free_internal();\<close>\<close>

definition event_session_dtor ::
  "nat \<Rightarrow> (TRACEHANDLE event_session_obj, native_call) world
     \<Rightarrow> error + (TRACEHANDLE event_session_obj, native_call) world" where
  "event_session_dtor this w =
     (if get_m_h this w \<noteq> 0 then event_session_free_internal this w else Inr w)"

text \<open>\<open>handle::free\<close> on an \<open>event_session\<close>.\<close>

definition event_session_free ::
  "nat \<Rightarrow> (TRACEHANDLE event_session_obj, native_call) world
     \<Rightarrow> error + (TRACEHANDLE event_session_obj, native_call) world" where
  "event_session_free this w =
     (if get_m_h this w \<noteq> 0 then
        (case event_session_free_internal this w of
           Inl e \<Rightarrow> Inl e
         | Inr w1 \<Rightarrow> Inr (set_m_h this 0 w1))
      else Inr w)"

text \<open>\<open>handle::attach\<close> on an \<open>event_session\<close>.\<close>

definition event_session_handle_attach ::
  "TRACEHANDLE \<Rightarrow> nat \<Rightarrow> (TRACEHANDLE event_session_obj, native_call) world
     \<Rightarrow> error + (TRACEHANDLE event_session_obj, native_call) world" where
  "event_session_handle_attach h this w =
     (case (if get_m_h this w \<noteq> 0 then event_session_free_internal this w else Inr w) of
        Inl e \<Rightarrow> Inl e
      | Inr w1 \<Rightarrow> Inr (set_m_h this h w1))"

text \<open>\<open>attach(h, prop)\<close>: \<open>handle<handle_type, 0>::attach(h); m_prop.reset(prop);\<close>\<close>

definition event_session_attach ::
  "TRACEHANDLE \<Rightarrow> EVENT_TRACE_PROPERTIES option \<Rightarrow> nat
     \<Rightarrow> (TRACEHANDLE event_session_obj, native_call) world
     \<Rightarrow> error + (TRACEHANDLE event_session_obj, native_call) world" where
  "event_session_attach h prop this w =
     (case event_session_handle_attach h this w of
        Inl e \<Rightarrow> Inl e
      | Inr w1 \<Rightarrow> Inr (w1\<lparr>objs := (objs w1)(this := (objs w1 this)\<lparr>m_prop := prop\<rparr>)\<rparr>))"

text \<open>
  \<open>create\<close>: \<open>StartTrace\<close> returns \<open>ulRes\<close>, leaves \<open>h\<close> in the local variable
  and \<open>prop\<close> in the copy of the properties it was given.
\<close>

definition event_session_create ::
  "ULONG \<times> TRACEHANDLE \<times> EVENT_TRACE_PROPERTIES \<Rightarrow> nat
     \<Rightarrow> (TRACEHANDLE event_session_obj, native_call) world
     \<Rightarrow> error + ULONG \<times> (TRACEHANDLE event_session_obj, native_call) world" where
  "event_session_create StartTrace this w =
     (let (ulRes, h, prop) = StartTrace in
      if ulRes = ERROR_SUCCESS then
        (case event_session_attach h (Some prop) this w of
           Inl e \<Rightarrow> Inl e
         | Inr w1 \<Rightarrow> Inr (ulRes, w1))
      else Inr (ulRes, w))"

text \<open>
  Move assignment of \<open>event_session\<close>:
  \<open>if (this != std::addressof(other)) {
       (handle<handle_type, 0>&&)*this = std::move(other);
       m_prop = std::move(other.m_prop); }\<close>.
  The first statement is the move assignment of the base class, which is
  guarded in the same way.
\<close>

definition event_session_handle_assign_move ::
  "nat \<Rightarrow> nat \<Rightarrow> (TRACEHANDLE event_session_obj, native_call) world
     \<Rightarrow> error + (TRACEHANDLE event_session_obj, native_call) world" where
  "event_session_handle_assign_move this h w =
     (if this \<noteq> h then
        (case (if get_m_h this w \<noteq> 0 then event_session_free_internal this w else Inr w) of
           Inl e \<Rightarrow> Inl e
         | Inr w1 \<Rightarrow>
             (let w2 = set_m_h this (get_m_h h w1) w1
              in Inr (set_m_h h 0 w2)))
      else Inr w)"

definition event_session_assign_move ::
  "nat \<Rightarrow> nat \<Rightarrow> (TRACEHANDLE event_session_obj, native_call) world
     \<Rightarrow> error + (TRACEHANDLE event_session_obj, native_call) world" where
  "event_session_assign_move this other w =
     (if this \<noteq> other then
        (case event_session_handle_assign_move this other w of
           Inl e \<Rightarrow> Inl e
         | Inr w1 \<Rightarrow>
             (let p = m_prop (objs w1 other);
                  w2 = w1\<lparr>objs := (objs w1)(other := (objs w1 other)\<lparr>m_prop := None\<rparr>)\<rparr>
              in Inr (w2\<lparr>objs := (objs w2)(this := (objs w2 this)\<lparr>m_prop := p\<rparr>)\<rparr>)))
      else Inr w)"

subsection \<open>event_trace : handle<TRACEHANDLE, INVALID_PROCESSTRACE_HANDLE>\<close>

definition event_trace_free_internal :: "(TRACEHANDLE, 'm) handle_scheme \<Rightarrow> native_call" where
  "event_trace_free_internal ob = CloseTrace (m_h ob)"

definition event_trace_dtor ::
  "nat \<Rightarrow> ((TRACEHANDLE, 'm) handle_scheme, native_call) world
     \<Rightarrow> ((TRACEHANDLE, 'm) handle_scheme, native_call) world" where
  "event_trace_dtor this w =
     (if get_m_h this w \<noteq> INVALID_PROCESSTRACE_HANDLE
      then free_internal event_trace_free_internal this w else w)"

subsection \<open>com_obj<T> : handle<T*>\<close>

text \<open>\<open>free_internal\<close> is \<open>m_h->Release()\<close>; the invalid value is the null pointer.\<close>

definition com_obj_free_internal :: "(LPVOID, 'm) handle_scheme \<Rightarrow> native_call" where
  "com_obj_free_internal ob = IUnknown_Release (m_h ob)"

text \<open>Destructor: \<open>if (m_h) m_h->Release();\<close>\<close>

definition com_obj_dtor ::
  "nat \<Rightarrow> ((LPVOID, 'm) handle_scheme, native_call) world
     \<Rightarrow> ((LPVOID, 'm) handle_scheme, native_call) world" where
  "com_obj_dtor this w =
     (if get_m_h this w \<noteq> 0 then w\<lparr>calls := calls w @ [IUnknown_Release (get_m_h this w)]\<rparr> else w)"

text \<open>
  \<open>create\<close> (COM.h, lines 96 to 103).  \<open>CoCreateInstance\<close> returns \<open>hr\<close> and
  leaves \<open>h\<close> in the local pointer (null when it fails).  The test is
  \<open>SUCCEEDED(h)\<close>, on the pointer: the macro casts it to \<open>HRESULT\<close>, which
  keeps its low 32 bits.
\<close>

definition com_obj_create ::
  "HRESULT \<times> LPVOID \<Rightarrow> nat \<Rightarrow> ((LPVOID, 'm) handle_scheme, native_call) world
     \<Rightarrow> HRESULT \<times> ((LPVOID, 'm) handle_scheme, native_call) world" where
  "com_obj_create CoCreateInstance this w =
     (let (hr, h) = CoCreateInstance;
          w1 = (if SUCCEEDED (ucast h) then attach 0 com_obj_free_internal h this w else w)
      in (hr, w1))"

section \<open>ETW.h: event_provider::write with a terminated parameter list\<close>

record EVENT_DATA_DESCRIPTOR =
  Ptr :: "64 word"
  Size :: "32 word"
  Reserved :: "32 word"

text \<open>
  \<open>blank_event_data\<close> is a default-constructed \<open>event_data\<close>:
  \<open>Ptr = 0; Size = 0; Reserved = (ULONG)-1;\<close>
\<close>

definition blank_event_data :: EVENT_DATA_DESCRIPTOR where
  "blank_event_data = \<lparr>Ptr = 0, Size = 0, Reserved = - 1\<rparr>"

text \<open>The test the code makes on \<open>param1\<close> and on every \<open>va_arg\<close> result.\<close>

definition is_terminator :: "EVENT_DATA_DESCRIPTOR \<Rightarrow> bool" where
  "is_terminator p \<longleftrightarrow>
     Ptr p = Ptr blank_event_data \<and> Size p = Size blank_event_data
     \<and> Reserved p = Reserved blank_event_data"

text \<open>
  A call of \<open>EventWrite(RegHandle, EventDescriptor, UserDataCount, UserData)\<close>;
  \<open>UserData\<close> is \<open>None\<close> for a null pointer and the array it points to
  otherwise.  The count is a \<open>ULONG\<close> that never exceeds the larger of its
  start value and the bound of the counting loop, so it is a natural number
  here.
\<close>

datatype 'd event_write = EventWrite REGHANDLE 'd nat "EVENT_DATA_DESCRIPTOR list option"

text \<open>
  \<open>std::vector::data()\<close>: the array, or a null pointer for a vector that never
  allocated (as in the standard library of the compiler the headers target).
\<close>

definition vector_data :: "'a list \<Rightarrow> 'a list option" where
  "vector_data params = (if params = [] then None else Some params)"

text \<open>
  The variable arguments are a list; \<open>va_arg\<close> takes its head, and reading
  beyond the arguments passed is undefined.  First loop (``preallocate''):
  \<open>for (; param_count < MAX_EVENT_DATA_DESCRIPTORS; param_count++) { p = va_arg(...); if (p is blank) break; }\<close>.
  The bound \<open>MAX_EVENT_DATA_DESCRIPTORS\<close> comes from the system header
  \<open>evntprov.h\<close> (128 there) and is the parameter \<open>maxd\<close>.
\<close>

fun count_params :: "nat \<Rightarrow> nat \<Rightarrow> EVENT_DATA_DESCRIPTOR list \<Rightarrow> error + nat" where
  "count_params maxd param_count [] =
     (if param_count < maxd then Inl UndefinedBehaviour else Inr param_count)"
| "count_params maxd param_count (p # arg) =
     (if param_count < maxd then
        (if is_terminator p then Inr param_count
         else count_params maxd (Suc param_count) arg)
      else Inr param_count)"

text \<open>
  Second loop: \<open>for (;;) { p = va_arg(...); if (p is blank) break; params.push_back(p); }\<close>
\<close>

fun copy_params ::
  "EVENT_DATA_DESCRIPTOR list \<Rightarrow> EVENT_DATA_DESCRIPTOR list \<Rightarrow> error + EVENT_DATA_DESCRIPTOR list" where
  "copy_params params [] = Inl UndefinedBehaviour"
| "copy_params params (p # arg) =
     (if is_terminator p then Inr params else copy_params (params @ [p]) arg)"

text \<open>\<open>write(EventDescriptor, param1, ...)\<close>, ETW.h lines 566 to 607.\<close>

definition write_variadic ::
  "nat \<Rightarrow> REGHANDLE \<Rightarrow> 'd \<Rightarrow> EVENT_DATA_DESCRIPTOR \<Rightarrow> EVENT_DATA_DESCRIPTOR list
     \<Rightarrow> error + 'd event_write" where
  "write_variadic maxd h EventDescriptor param1 arg =
     (if h = 0 then Inl AssertFailed
      else if is_terminator param1 then Inr (EventWrite h EventDescriptor 0 None)
      else
        (case count_params maxd 1 arg of
           Inl e \<Rightarrow> Inl e
         | Inr param_count \<Rightarrow>
             (case copy_params [param1] arg of
                Inl e \<Rightarrow> Inl e
              | Inr params \<Rightarrow> Inr (EventWrite h EventDescriptor param_count (vector_data params)))))"

text \<open>\<open>write(EventDescriptor, va_list arg)\<close>, ETW.h lines 620 to 651.\<close>

definition write_va_list ::
  "nat \<Rightarrow> REGHANDLE \<Rightarrow> 'd \<Rightarrow> EVENT_DATA_DESCRIPTOR list \<Rightarrow> error + 'd event_write" where
  "write_va_list maxd h EventDescriptor arg =
     (if h = 0 then Inl AssertFailed
      else
        (case count_params maxd 0 arg of
           Inl e \<Rightarrow> Inl e
         | Inr param_count \<Rightarrow>
             (case copy_params [] arg of
                Inl e \<Rightarrow> Inl e
              | Inr params \<Rightarrow> Inr (EventWrite h EventDescriptor param_count (vector_data params)))))"

section \<open>COM.h: bstr\<close>

text \<open>
  A \<open>BSTR\<close> is a null pointer or points to wide characters that carry their
  count in a prefix.  \<open>SysStringLen\<close> and \<open>SysAllocStringLen\<close> are functions
  of the system, modelled by what their documentation says:
  \<open>SysStringLen\<close> returns the count of a string and 0 for a null pointer;
  \<open>SysAllocStringLen(strIn, ui)\<close> returns a new string of the first \<open>ui\<close>
  characters at \<open>strIn\<close>, or a null pointer when it cannot allocate it
  (\<open>ok\<close> tells which).
\<close>

type_synonym wchar_t = "16 word"
type_synonym BSTR = "wchar_t list option"
type_synonym UINT = "32 word"

definition SysStringLen :: "BSTR \<Rightarrow> UINT" where
  "SysStringLen bstr = (case bstr of None \<Rightarrow> 0 | Some s \<Rightarrow> of_nat (length s))"

definition SysAllocStringLen :: "bool \<Rightarrow> wchar_t list \<Rightarrow> UINT \<Rightarrow> BSTR" where
  "SysAllocStringLen ok strIn ui = (if ok then Some (take (unat ui) strIn) else None)"

text \<open>
  A \<open>std::basic_string<wchar_t>\<close> is the list of its characters; \<open>c_str()\<close>
  is that list followed by a null character, \<open>length()\<close> its length.
\<close>

definition c_str :: "wchar_t list \<Rightarrow> wchar_t list" where
  "c_str src = src @ [0]"

text \<open>\<open>bstr() : handle<BSTR>()\<close>; the invalid value is the null pointer.\<close>

definition bstr_ctor ::
  "nat \<Rightarrow> ((BSTR, 'm) handle_scheme, 'c) world \<Rightarrow> ((BSTR, 'm) handle_scheme, 'c) world" where
  "bstr_ctor this w = handle_ctor None this w"

text \<open>
  \<open>bstr(const std::basic_string<wchar_t, ...> &src) :
     handle<BSTR>(SysAllocStringLen(src.c_str(), (UINT)src.length()))\<close>:
  the cast keeps the low 32 bits of the length.
\<close>

definition bstr_ctor_basic_string ::
  "bool \<Rightarrow> wchar_t list \<Rightarrow> nat \<Rightarrow> ((BSTR, 'm) handle_scheme, 'c) world
     \<Rightarrow> ((BSTR, 'm) handle_scheme, 'c) world" where
  "bstr_ctor_basic_string ok src this w =
     handle_ctor_raw (SysAllocStringLen ok (c_str src) (of_nat (length src))) this w"

text \<open>\<open>length()\<close>: \<open>return SysStringLen(m_h);\<close>\<close>

definition bstr_length :: "nat \<Rightarrow> ((BSTR, 'm) handle_scheme, 'c) world \<Rightarrow> UINT" where
  "bstr_length this w = SysStringLen (get_m_h this w)"

section \<open>COM.h: variant\<close>

text \<open>
  Modelled from the spec: \<open>VARIANT\<close> is the tagged union of OLE Automation.
  Its declaration belongs to the Windows SDK (\<open>oaidl.h\<close>, \<open>wtypes.h\<close>), not to
  this repository: a 16-bit tag \<open>vt\<close>, three reserved 16-bit words and a
  union, 24 bytes on the x64 build.  The constants are values of \<open>VARENUM\<close>;
  the tag \<open>VT_I4\<close> designates the member \<open>lVal\<close> and \<open>VT_R8\<close> the member
  \<open>dblVal\<close>, both at the start of the union.
\<close>

type_synonym VARTYPE = "16 word"

definition VT_EMPTY :: VARTYPE where "VT_EMPTY = 0"
definition VT_I4 :: VARTYPE where "VT_I4 = 3"
definition VT_R8 :: VARTYPE where "VT_R8 = 5"

subsection \<open>Moving a variant\<close>

text \<open>
  The move constructor and the move assignment copy the source with
  \<open>memcpy(this, &varSrc, sizeof(VARIANT))\<close>, so here an object is the bytes it
  occupies.  \<open>variant\<close> derives from \<open>VARIANT\<close> and declares a virtual
  destructor: besides the bytes of its \<open>VARIANT\<close> base it holds what the
  compiler adds for that, ahead of the base or after it: the compilers for
  Windows put the pointer to the virtual function table first, 8 bytes on
  the x64 build, and the base after it.  A plain \<open>VARIANT\<close> has the base
  alone.  \<open>memcpy\<close> receives \<open>this\<close> as \<open>void *\<close>,
  the address of the first byte of the object; \<open>&varSrc\<close> is the address of
  the source's \<open>VARIANT\<close>.
\<close>

type_synonym byte = "8 word"

record variant_object =
  before_base :: "byte list"
  base :: "byte list"
  after_base :: "byte list"

definition object_bytes :: "variant_object \<Rightarrow> byte list" where
  "object_bytes ob = before_base ob @ base ob @ after_base ob"

definition with_bytes :: "variant_object \<Rightarrow> byte list \<Rightarrow> variant_object" where
  "with_bytes ob bs =
     \<lparr>before_base = take (length (before_base ob)) bs,
      base = take (length (base ob)) (drop (length (before_base ob)) bs),
      after_base = drop (length (before_base ob) + length (base ob)) bs\<rparr>"

text \<open>\<open>memcpy(dst, src, n)\<close> on the bytes from \<open>dst\<close> on and the bytes from \<open>src\<close> on.\<close>

definition memcpy :: "byte list \<Rightarrow> byte list \<Rightarrow> nat \<Rightarrow> byte list" where
  "memcpy dst src n = take n src @ drop n dst"

text \<open>
  Modelled from the spec: \<open>vt\<close> is the first member of \<open>VARIANT\<close>, two bytes,
  the low byte first.
\<close>

definition get_vt :: "byte list \<Rightarrow> VARTYPE" where
  "get_vt bs = word_cat (bs ! 1) (bs ! 0)"

definition set_vt :: "byte list \<Rightarrow> VARTYPE \<Rightarrow> byte list" where
  "set_vt bs t = [ucast t, ucast (drop_bit 8 t)] @ drop 2 bs"

text \<open>
  The log holds the calls of \<open>VariantClear\<close>, each with the object it was
  called on and the bytes of that object's \<open>VARIANT\<close> at the call.  What the
  call leaves in the \<open>VARIANT\<close> is the parameter \<open>clear\<close>.
\<close>

datatype variant_call = VariantClear_call nat "byte list"

text \<open>
  Move constructor: \<open>memcpy(this, &varSrc, sizeof(VARIANT)); varSrc.vt = VT_EMPTY;\<close>
\<close>

definition variant_move_body ::
  "nat \<Rightarrow> nat \<Rightarrow> (variant_object, variant_call) world \<Rightarrow> (variant_object, variant_call) world" where
  "variant_move_body this varSrc w =
     (let src = base (objs w varSrc);
          ob = with_bytes (objs w this) (memcpy (object_bytes (objs w this)) src (length src));
          w1 = w\<lparr>objs := (objs w)(this := ob)\<rparr>
      in w1\<lparr>objs := (objs w1)(varSrc := (objs w1 varSrc)\<lparr>base := set_vt (base (objs w1 varSrc)) VT_EMPTY\<rparr>)\<rparr>)"

definition variant_ctor_move ::
  "nat \<Rightarrow> nat \<Rightarrow> (variant_object, variant_call) world \<Rightarrow> (variant_object, variant_call) world" where
  "variant_ctor_move this varSrc w = variant_move_body this varSrc w"

text \<open>
  Move assignment:
  \<open>if (this != &varSrc) { VariantClear(this); memcpy(this, &varSrc, sizeof(VARIANT)); varSrc.vt = VT_EMPTY; }\<close>.
  \<open>VariantClear\<close> takes a \<open>VARIANT *\<close>, to which \<open>this\<close> converts as the
  address of the base.
\<close>

definition variant_assign_move ::
  "(byte list \<Rightarrow> byte list) \<Rightarrow> nat \<Rightarrow> nat \<Rightarrow> (variant_object, variant_call) world
     \<Rightarrow> (variant_object, variant_call) world" where
  "variant_assign_move clear this varSrc w =
     (if this \<noteq> varSrc then
        (let w1 = w\<lparr>objs := (objs w)(this := (objs w this)\<lparr>base := clear (base (objs w this))\<rparr>),
                    calls := calls w @ [VariantClear_call this (base (objs w this))]\<rparr>
         in variant_move_body this varSrc w1)
      else w)"

section \<open>ETW.h: event_rec\<close>

text \<open>
  Copying an \<open>event_rec\<close> allocates memory and copies through pointers, so
  memory is explicit.  An address is a natural number, 0 the null pointer;
  \<open>size_t\<close> and pointers are 64 bits wide (the x64 build), which the sums
  below cannot exceed, and a pointer kept in a \<open>ULONGLONG\<close> is its address.
  Memory holds, at each address, a byte, or the first byte of an
  \<open>EVENT_HEADER_EXTENDED_DATA_ITEM\<close> (shown as the whole item), or one of the
  15 bytes that follow it: the item is 16 bytes, two \<open>USHORT\<close>s, a \<open>USHORT\<close>
  of bit-fields, the \<open>USHORT DataSize\<close> and the \<open>ULONGLONG DataPtr\<close>.
  \<open>blocks\<close> lists the allocated blocks, each by its first address and its
  size; an access outside them is undefined.
\<close>

record EVENT_HEADER_EXTENDED_DATA_ITEM =
  Reserved1 :: "16 word"
  ExtType :: "16 word"
  Linkage :: "16 word"
  DataSize :: "16 word"
  DataPtr :: nat

datatype cell = Byte byte | Item EVENT_HEADER_EXTENDED_DATA_ITEM | Inside

record heap =
  cells :: "nat \<Rightarrow> cell"
  blocks :: "(nat \<times> nat) list"

definition sizeof_item :: nat where
  "sizeof_item = 16"

definition in_block :: "heap \<Rightarrow> nat \<Rightarrow> nat \<Rightarrow> bool" where
  "in_block h a n = list_ex (\<lambda>(b, s). b \<le> a \<and> a + n \<le> b + s) (blocks h)"

text \<open>
  \<open>new unsigned char[n]\<close>: a block beyond every block allocated so far.  The
  memory it returns is not initialised; the cells keep what they held.
\<close>

definition heap_end :: "heap \<Rightarrow> nat" where
  "heap_end h = foldr (\<lambda>(b, s) m. max (b + s) m) (blocks h) 0"

definition new :: "heap \<Rightarrow> nat \<Rightarrow> nat \<times> heap" where
  "new h n = (Suc (heap_end h), h\<lparr>blocks := (Suc (heap_end h), n) # blocks h\<rparr>)"

definition memcpy_heap :: "heap \<Rightarrow> nat \<Rightarrow> nat \<Rightarrow> nat \<Rightarrow> error + heap" where
  "memcpy_heap h dst src n =
     (if in_block h dst n \<and> in_block h src n then
        Inr (h\<lparr>cells := (\<lambda>a. if dst \<le> a \<and> a < dst + n then cells h (src + (a - dst)) else cells h a)\<rparr>)
      else Inl UndefinedBehaviour)"

text \<open>Reading \<open>data[i]\<close> and writing \<open>ExtendedData[i].DataPtr\<close>, at the item's address.\<close>

definition read_item :: "heap \<Rightarrow> nat \<Rightarrow> error + EVENT_HEADER_EXTENDED_DATA_ITEM" where
  "read_item h a =
     (if in_block h a sizeof_item then
        (case cells h a of Item d \<Rightarrow> Inr d | _ \<Rightarrow> Inl UndefinedBehaviour)
      else Inl UndefinedBehaviour)"

definition write_DataPtr :: "heap \<Rightarrow> nat \<Rightarrow> nat \<Rightarrow> error + heap" where
  "write_DataPtr h a p =
     (case read_item h a of
        Inl e \<Rightarrow> Inl e
      | Inr d \<Rightarrow> Inr (h\<lparr>cells := (cells h)(a := Item (d\<lparr>DataPtr := p\<rparr>))\<rparr>))"

record 'a EVENT_RECORD =
  EventHeader :: 'a
  ExtendedDataCount :: "16 word"
  UserDataLength :: "16 word"
  ExtendedData :: nat
  UserData :: nat

text \<open>
  First loop of \<open>set_extended_data_internal\<close>:
  \<open>for (size_t i = 0; i < count; i++) data_size += data[i].DataSize;\<close>
  with \<open>n\<close> the iterations still to run.
\<close>

fun sum_data_size :: "heap \<Rightarrow> nat \<Rightarrow> nat \<Rightarrow> nat \<Rightarrow> nat \<Rightarrow> error + nat" where
  "sum_data_size h data i 0 data_size = Inr data_size"
| "sum_data_size h data i (Suc n) data_size =
     (case read_item h (data + sizeof_item * i) of
        Inl e \<Rightarrow> Inl e
      | Inr d \<Rightarrow> sum_data_size h data (Suc i) n (data_size + unat (DataSize d)))"

text \<open>
  Second loop:
  \<open>if (data[i].DataSize) { memcpy(ptr, (void*)(data[i].DataPtr), data[i].DataSize);
     ExtendedData[i].DataPtr = (ULONGLONG)ptr; ptr += data[i].DataSize; }
   else ExtendedData[i].DataPtr = NULL;\<close>
\<close>

fun copy_data :: "heap \<Rightarrow> nat \<Rightarrow> nat \<Rightarrow> nat \<Rightarrow> nat \<Rightarrow> nat \<Rightarrow> error + heap" where
  "copy_data h ed data i 0 ptr = Inr h"
| "copy_data h ed data i (Suc n) ptr =
     (case read_item h (data + sizeof_item * i) of
        Inl e \<Rightarrow> Inl e
      | Inr d \<Rightarrow>
          if DataSize d \<noteq> 0 then
            (case memcpy_heap h ptr (DataPtr d) (unat (DataSize d)) of
               Inl e \<Rightarrow> Inl e
             | Inr h1 \<Rightarrow>
                 (case write_DataPtr h1 (ed + sizeof_item * i) ptr of
                    Inl e \<Rightarrow> Inl e
                  | Inr h2 \<Rightarrow> copy_data h2 ed data (Suc i) n (ptr + unat (DataSize d))))
          else
            (case write_DataPtr h (ed + sizeof_item * i) 0 of
               Inl e \<Rightarrow> Inl e
             | Inr h2 \<Rightarrow> copy_data h2 ed data (Suc i) n ptr))"

text \<open>\<open>set_extended_data_internal(count, data)\<close>, ETW.h lines 433 to 463.\<close>

definition set_extended_data_internal ::
  "16 word \<Rightarrow> nat \<Rightarrow> 'a EVENT_RECORD \<times> heap \<Rightarrow> error + 'a EVENT_RECORD \<times> heap" where
  "set_extended_data_internal count data st =
     (let (this, h) = st in
      if count \<noteq> 0 then
        (if data = 0 then Inl AssertFailed
         else
           (case sum_data_size h data 0 (unat count) 0 of
              Inl e \<Rightarrow> Inl e
            | Inr data_size \<Rightarrow>
                (let (ed, h1) = new h (sizeof_item * unat count + data_size) in
                 case memcpy_heap h1 ed data (sizeof_item * unat count) of
                   Inl e \<Rightarrow> Inl e
                 | Inr h2 \<Rightarrow>
                     (case copy_data h2 ed data 0 (unat count) (ed + sizeof_item * unat count) of
                        Inl e \<Rightarrow> Inl e
                      | Inr h3 \<Rightarrow>
                          Inr (this\<lparr>ExtendedData := ed, ExtendedDataCount := count\<rparr>, h3)))))
      else Inr (this\<lparr>ExtendedData := 0, ExtendedDataCount := count\<rparr>, h))"

text \<open>\<open>set_user_data_internal(size, data)\<close>, ETW.h lines 471 to 485.\<close>

definition set_user_data_internal ::
  "16 word \<Rightarrow> nat \<Rightarrow> 'a EVENT_RECORD \<times> heap \<Rightarrow> error + 'a EVENT_RECORD \<times> heap" where
  "set_user_data_internal size' data st =
     (let (this, h) = st in
      if size' \<noteq> 0 then
        (if data = 0 then Inl AssertFailed
         else
           (let (ud, h1) = new h (unat size') in
            case memcpy_heap h1 ud data (unat size') of
              Inl e \<Rightarrow> Inl e
            | Inr h2 \<Rightarrow> Inr (this\<lparr>UserData := ud, UserDataLength := size'\<rparr>, h2)))
      else Inr (this\<lparr>UserData := 0, UserDataLength := size'\<rparr>, h))"

text \<open>
  Copy constructor: the members are copied from \<open>other\<close>, then
  \<open>set_extended_data_internal(other.ExtendedDataCount, other.ExtendedData);
   set_user_data_internal(other.UserDataLength, other.UserData);\<close>
\<close>

definition event_rec_ctor_copy ::
  "'a EVENT_RECORD \<Rightarrow> heap \<Rightarrow> error + 'a EVENT_RECORD \<times> heap" where
  "event_rec_ctor_copy other h =
     (case set_extended_data_internal (ExtendedDataCount other) (ExtendedData other) (other, h) of
        Inl e \<Rightarrow> Inl e
      | Inr st \<Rightarrow> set_user_data_internal (UserDataLength other) (UserData other) st)"

text \<open>The size of an item's data, as a number.\<close>

abbreviation dsize :: "EVENT_HEADER_EXTENDED_DATA_ITEM \<Rightarrow> nat" where
  "dsize d \<equiv> unat (DataSize d)"

section \<open>Properties of the handle wrappers\<close>

lemmas handle_defs = get_m_h_def set_m_h_def free_internal_def attach_def free_def
  handle_assign_raw_def handle_assign_move_def handle_ctor_move_def

lemmas event_session_defs = event_session_name_def event_session_free_internal_def
  event_session_dtor_def event_session_free_def event_session_handle_attach_def
  event_session_attach_def event_session_handle_assign_move_def event_session_assign_move_def

text \<open>
  The two \<open>create\<close> methods of ETW.h return the native result code, attach
  the new handle when that code is \<open>ERROR_SUCCESS\<close> and leave the wrapper as
  it was otherwise.
\<close>

lemma event_provider_create_forwards:
  "fst (event_provider_create (ulRes, h) this w) = ulRes"
  "ulRes = ERROR_SUCCESS \<Longrightarrow> get_m_h this (snd (event_provider_create (ulRes, h) this w)) = h"
  "ulRes \<noteq> ERROR_SUCCESS \<Longrightarrow> snd (event_provider_create (ulRes, h) this w) = w"
  by (simp_all add: event_provider_create_def handle_defs Let_def)

lemma event_session_create_forwards:
  "ulRes \<noteq> ERROR_SUCCESS \<Longrightarrow> event_session_create (ulRes, h, p) this w = Inr (ulRes, w)"
  "ulRes = ERROR_SUCCESS \<Longrightarrow> get_m_h this w = 0 \<or> m_prop (objs w this) \<noteq> None \<Longrightarrow>
     \<exists>w'. event_session_create (ulRes, h, p) this w = Inr (ulRes, w')
        \<and> get_m_h this w' = h \<and> m_prop (objs w' this) = Some p"
  by (auto simp: event_session_create_def event_session_defs get_m_h_def set_m_h_def
      split: option.splits)

text \<open>
  Claim C1.  \<open>com_obj::create\<close> does not follow that contract.  When
  \<open>CoCreateInstance\<close> fails with \<open>REGDB_E_CLASSNOTREG\<close> and leaves a null
  pointer, a wrapper holding the object at \<open>0x1000\<close> releases it and stores
  null, although the result code returned is a failure.  When the call
  succeeds and the new object lies at an address whose bit 31 is set, the
  object is not attached, although the result code returned is \<open>S_OK\<close>.
\<close>

theorem com_obj_create_failure_detaches:
  "com_obj_create (0x80040154, 0) 0
     \<lparr>objs = (\<lambda>_. \<lparr>m_h = 0\<rparr>)(0 := \<lparr>m_h = 0x1000\<rparr>), calls = []\<rparr>
   = (0x80040154,
      \<lparr>objs = (\<lambda>_. \<lparr>m_h = 0\<rparr>)(0 := \<lparr>m_h = 0\<rparr>), calls = [IUnknown_Release 0x1000]\<rparr>)
   \<and> \<not> SUCCEEDED 0x80040154
   \<and> com_obj_create (0, 0x80001000) 0
     \<lparr>objs = (\<lambda>_. \<lparr>m_h = 0\<rparr>), calls = []\<rparr>
   = (0, \<lparr>objs = (\<lambda>_. \<lparr>m_h = 0\<rparr>), calls = []\<rparr>)
   \<and> SUCCEEDED 0"
  by (simp add: com_obj_create_def SUCCEEDED_def handle_defs com_obj_free_internal_def word_sle_eq)

text \<open>
  Claim C2, as stated, fails for an \<open>event_session\<close> that holds a valid handle
  and a null \<open>m_prop\<close>: its destructor calls \<open>free_internal\<close>, which reads
  through \<open>m_prop\<close> in \<open>name()\<close> before it can call \<open>ControlTrace\<close>, so no
  release call is made.
\<close>

theorem event_session_dtor_null_prop_counterexample:
  "event_session_dtor 0 \<lparr>objs = (\<lambda>_. \<lparr>m_h = 5, m_prop = None\<rparr>), calls = []\<rparr>
     = Inl UndefinedBehaviour
   \<and> get_m_h 0 \<lparr>objs = (\<lambda>_. \<lparr>m_h = 5 :: TRACEHANDLE, m_prop = None\<rparr>),
                 calls = [] :: native_call list\<rparr> = 5
   \<and> (5 :: TRACEHANDLE) \<noteq> 0"
  by (simp add: event_session_defs get_m_h_def)

text \<open>
  Claim C2, amended.  \<open>free\<close> on a wrapper that holds the invalid value
  changes nothing and calls nothing; on a wrapper that holds a valid handle it
  makes the one call of \<open>free_internal\<close> on the object as it stood and then
  stores the invalid value.  The destructors of \<open>event_provider\<close>,
  \<open>event_trace\<close> and \<open>com_obj\<close> make no call on the invalid value and exactly
  the matching release call on a valid handle.  So do the destructor of
  \<open>event_session\<close> and \<open>free\<close> on an \<open>event_session\<close> whose \<open>m_prop\<close> is
  not null; with a valid handle and a null \<open>m_prop\<close> they are undefined.
\<close>

theorem release_only_on_valid_handle:
  "(get_m_h this w = inval \<longrightarrow> free inval fi this w = w)
   \<and> (get_m_h this w \<noteq> inval \<longrightarrow>
        calls (free inval fi this w) = calls w @ [fi (objs w this)]
        \<and> get_m_h this (free inval fi this w) = inval)
   \<and> event_provider_dtor p wp =
        (if get_m_h p wp = 0 then wp else wp\<lparr>calls := calls wp @ [EventUnregister (get_m_h p wp)]\<rparr>)
   \<and> event_session_dtor s ws =
        (if get_m_h s ws = 0 then Inr ws
         else case m_prop (objs ws s) of
                None \<Rightarrow> Inl UndefinedBehaviour
              | Some prop \<Rightarrow>
                  Inr (ws\<lparr>calls := calls ws
                          @ [ControlTrace_STOP (get_m_h s ws) (LoggerNameOffset prop) prop]\<rparr>))
   \<and> event_session_free s ws =
        (if get_m_h s ws = 0 then Inr ws
         else case m_prop (objs ws s) of
                None \<Rightarrow> Inl UndefinedBehaviour
              | Some prop \<Rightarrow>
                  Inr (set_m_h s 0 (ws\<lparr>calls := calls ws
                          @ [ControlTrace_STOP (get_m_h s ws) (LoggerNameOffset prop) prop]\<rparr>)))
   \<and> event_trace_dtor t wt =
        (if get_m_h t wt = INVALID_PROCESSTRACE_HANDLE then wt
         else wt\<lparr>calls := calls wt @ [CloseTrace (get_m_h t wt)]\<rparr>)
   \<and> com_obj_dtor c wc =
        (if get_m_h c wc = 0 then wc else wc\<lparr>calls := calls wc @ [IUnknown_Release (get_m_h c wc)]\<rparr>)"
  by (simp add: handle_defs event_provider_dtor_def event_session_defs event_trace_dtor_def
      com_obj_dtor_def event_provider_free_internal_def event_trace_free_internal_def
      split: option.splits)

theorem release_only_on_valid_handle_witness:
  "free (0::nat) m_h 0 \<lparr>objs = (\<lambda>_. \<lparr>m_h = 0\<rparr>), calls = []\<rparr>
     = \<lparr>objs = (\<lambda>_. \<lparr>m_h = 0\<rparr>), calls = []\<rparr>
   \<and> calls (free (0::nat) m_h 1 \<lparr>objs = (\<lambda>_. \<lparr>m_h = 7\<rparr>), calls = []\<rparr>) = [7]
   \<and> get_m_h 1 (free (0::nat) m_h 1 \<lparr>objs = (\<lambda>_. \<lparr>m_h = 7\<rparr>), calls = []\<rparr>) = 0
   \<and> calls (event_provider_dtor 0 \<lparr>objs = (\<lambda>_. \<lparr>m_h = 9\<rparr>), calls = []\<rparr>) = [EventUnregister 9]
   \<and> calls (event_provider_dtor 0 \<lparr>objs = (\<lambda>_. \<lparr>m_h = 0\<rparr>), calls = []\<rparr>) = []
   \<and> event_session_dtor 0
        \<lparr>objs = (\<lambda>_. \<lparr>m_h = 9, m_prop = Some \<lparr>LoggerNameOffset = 120, buffer = [1]\<rparr>\<rparr>), calls = []\<rparr>
       = Inr \<lparr>objs = (\<lambda>_. \<lparr>m_h = 9, m_prop = Some \<lparr>LoggerNameOffset = 120, buffer = [1]\<rparr>\<rparr>),
              calls = [ControlTrace_STOP 9 120 \<lparr>LoggerNameOffset = 120, buffer = [1]\<rparr>]\<rparr>
   \<and> calls (event_trace_dtor 0 \<lparr>objs = (\<lambda>_. \<lparr>m_h = 9\<rparr>), calls = []\<rparr>) = [CloseTrace 9]
   \<and> calls (event_trace_dtor 0 \<lparr>objs = (\<lambda>_. \<lparr>m_h = - 1\<rparr>), calls = []\<rparr>) = []
   \<and> calls (com_obj_dtor 0 \<lparr>objs = (\<lambda>_. \<lparr>m_h = 9\<rparr>), calls = []\<rparr>) = [IUnknown_Release 9]"
  using release_only_on_valid_handle
          [where this = 0 and w = "\<lparr>objs = (\<lambda>_. \<lparr>m_h = 0::nat\<rparr>), calls = []\<rparr>"
             and inval = 0 and fi = m_h
             and p = 0 and wp = "\<lparr>objs = (\<lambda>_. \<lparr>m_h = 0\<rparr>), calls = []\<rparr>"
             and s = 0
             and ws = "\<lparr>objs = (\<lambda>_. \<lparr>m_h = 9, m_prop = Some \<lparr>LoggerNameOffset = 120, buffer = [1]\<rparr>\<rparr>),
                        calls = []\<rparr>"
             and t = 0 and wt = "\<lparr>objs = (\<lambda>_. \<lparr>m_h = - 1\<rparr>), calls = []\<rparr>"
             and c = 0 and wc = "\<lparr>objs = (\<lambda>_. \<lparr>m_h = 9\<rparr>), calls = []\<rparr>"]
        release_only_on_valid_handle
          [where this = 1 and w = "\<lparr>objs = (\<lambda>_. \<lparr>m_h = 7::nat\<rparr>), calls = []\<rparr>"
             and inval = 0 and fi = m_h
             and p = 0 and wp = "\<lparr>objs = (\<lambda>_. \<lparr>m_h = 9\<rparr>), calls = []\<rparr>"
             and s = 0
             and ws = "\<lparr>objs = (\<lambda>_. \<lparr>m_h = 9, m_prop = Some \<lparr>LoggerNameOffset = 120, buffer = [1]\<rparr>\<rparr>),
                        calls = []\<rparr>"
             and t = 0 and wt = "\<lparr>objs = (\<lambda>_. \<lparr>m_h = 9\<rparr>), calls = []\<rparr>"
             and c = 0 and wc = "\<lparr>objs = (\<lambda>_. \<lparr>m_h = 9\<rparr>), calls = []\<rparr>"]
  by (simp add: get_m_h_def INVALID_PROCESSTRACE_HANDLE_def)

text \<open>
  Claim C3, as stated, fails for an \<open>event_session\<close> that holds a valid handle
  and a null \<open>m_prop\<close>: \<open>attach\<close> calls \<open>free_internal\<close>, which reads through
  the null pointer, and the handle held is not released.
\<close>

theorem event_session_attach_null_prop_counterexample:
  "event_session_attach 7 (Some \<lparr>LoggerNameOffset = 120, buffer = [1]\<rparr>) 0
      \<lparr>objs = (\<lambda>_. \<lparr>m_h = 5, m_prop = None\<rparr>), calls = []\<rparr>
     = Inl UndefinedBehaviour
   \<and> get_m_h 0 \<lparr>objs = (\<lambda>_. \<lparr>m_h = 5 :: TRACEHANDLE, m_prop = None\<rparr>),
                 calls = [] :: native_call list\<rparr> = 5
   \<and> (5 :: TRACEHANDLE) \<noteq> 0"
  by (simp add: event_session_defs get_m_h_def)

text \<open>
  Claim C3, amended.  \<open>attach\<close>, assignment from a raw handle and move
  assignment from another object release the handle held before, once and
  only when it is valid, with the object still holding it, and then store the
  new handle; after a move assignment the source holds the invalid value, so
  the handle has one owner.  On an \<open>event_session\<close> the same holds of
  \<open>attach(h, prop)\<close>, of the base class's \<open>attach\<close> and of the move
  assignment when the session holds no valid handle or its \<open>m_prop\<close> is not
  null, the release call being made with the old properties; with a valid
  handle and a null \<open>m_prop\<close> they are undefined.
\<close>

theorem install_releases_previous_once:
  "calls (attach inval fi h this w) =
     calls w @ (if get_m_h this w \<noteq> inval then [fi (objs w this)] else [])
   \<and> get_m_h this (attach inval fi h this w) = h
   \<and> handle_assign_raw inval fi h this w = attach inval fi h this w
   \<and> (this \<noteq> src \<longrightarrow>
        calls (handle_assign_move inval fi this src w) =
          calls w @ (if get_m_h this w \<noteq> inval then [fi (objs w this)] else [])
        \<and> get_m_h this (handle_assign_move inval fi this src w) = get_m_h src w
        \<and> get_m_h src (handle_assign_move inval fi this src w) = inval)
   \<and> handle_assign_move inval fi this this w = w
   \<and> (get_m_h s ws \<noteq> 0 \<and> m_prop (objs ws s) = None \<longrightarrow>
        event_session_attach hs pr s ws = Inl UndefinedBehaviour
        \<and> event_session_handle_attach hs s ws = Inl UndefinedBehaviour
        \<and> (s \<noteq> other \<longrightarrow> event_session_assign_move s other ws = Inl UndefinedBehaviour))
   \<and> (get_m_h s ws = 0 \<or> m_prop (objs ws s) = Some tp \<longrightarrow>
        (\<exists>w'. event_session_attach hs pr s ws = Inr w'
           \<and> calls w' = calls ws @ (if get_m_h s ws \<noteq> 0
                then [ControlTrace_STOP (get_m_h s ws) (LoggerNameOffset tp) tp] else [])
           \<and> get_m_h s w' = hs \<and> m_prop (objs w' s) = pr)
        \<and> (\<exists>w'. event_session_handle_attach hs s ws = Inr w'
           \<and> calls w' = calls ws @ (if get_m_h s ws \<noteq> 0
                then [ControlTrace_STOP (get_m_h s ws) (LoggerNameOffset tp) tp] else [])
           \<and> get_m_h s w' = hs)
        \<and> (s \<noteq> other \<longrightarrow>
             (\<exists>w'. event_session_assign_move s other ws = Inr w'
                \<and> calls w' = calls ws @ (if get_m_h s ws \<noteq> 0
                     then [ControlTrace_STOP (get_m_h s ws) (LoggerNameOffset tp) tp] else [])
                \<and> get_m_h s w' = get_m_h other ws \<and> get_m_h other w' = 0
                \<and> m_prop (objs w' s) = m_prop (objs ws other))))
   \<and> event_session_assign_move s s ws = Inr ws"
  by (auto simp: handle_defs Let_def event_session_defs)

theorem install_releases_previous_once_witness:
  "calls (attach (0::nat) m_h 8 0 \<lparr>objs = (\<lambda>_. \<lparr>m_h = 7\<rparr>), calls = []\<rparr>) = [7]
   \<and> get_m_h 0 (attach (0::nat) m_h 8 0 \<lparr>objs = (\<lambda>_. \<lparr>m_h = 7\<rparr>), calls = []\<rparr>) = 8
   \<and> (0::nat) \<noteq> 1
   \<and> calls (handle_assign_move (0::nat) m_h 0 1
          \<lparr>objs = (\<lambda>_. \<lparr>m_h = 7\<rparr>)(1 := \<lparr>m_h = 8\<rparr>), calls = []\<rparr>) = [7]
   \<and> get_m_h 0 (handle_assign_move (0::nat) m_h 0 1
          \<lparr>objs = (\<lambda>_. \<lparr>m_h = 7\<rparr>)(1 := \<lparr>m_h = 8\<rparr>), calls = []\<rparr>) = 8
   \<and> (\<exists>w'. event_session_attach 3 None 0
          \<lparr>objs = (\<lambda>_. \<lparr>m_h = 9, m_prop = Some \<lparr>LoggerNameOffset = 120, buffer = [1]\<rparr>\<rparr>),
           calls = []\<rparr> = Inr w'
        \<and> calls w' = [ControlTrace_STOP 9 120 \<lparr>LoggerNameOffset = 120, buffer = [1]\<rparr>]
        \<and> get_m_h 0 w' = 3)"
  using install_releases_previous_once
          [where this = 0 and src = 1 and inval = "0::nat" and fi = m_h and h = 8
             and w = "\<lparr>objs = (\<lambda>_. \<lparr>m_h = 7\<rparr>), calls = []\<rparr>"
             and s = 0 and other = 1 and hs = 3 and pr = None
             and tp = "\<lparr>LoggerNameOffset = 120, buffer = [1]\<rparr>"
             and ws = "\<lparr>objs = (\<lambda>_. \<lparr>m_h = 9, m_prop = Some \<lparr>LoggerNameOffset = 120, buffer = [1]\<rparr>\<rparr>),
                        calls = []\<rparr>"]
        install_releases_previous_once
          [where this = 0 and src = 1 and inval = "0::nat" and fi = m_h and h = 8
             and w = "\<lparr>objs = (\<lambda>_. \<lparr>m_h = 7\<rparr>)(1 := \<lparr>m_h = 8\<rparr>), calls = []\<rparr>"
             and s = 0 and other = 1 and hs = 3 and pr = None
             and tp = "\<lparr>LoggerNameOffset = 120, buffer = [1]\<rparr>"
             and ws = "\<lparr>objs = (\<lambda>_. \<lparr>m_h = 9, m_prop = Some \<lparr>LoggerNameOffset = 120, buffer = [1]\<rparr>\<rparr>),
                        calls = []\<rparr>"]
  by (auto simp: get_m_h_def)




text \<open>
  Claim C5.  Copy assignment of a \<open>dplhandle\<close> from another object with a
  valid handle calls \<open>duplicate_internal\<close> on the source's handle first,
  then releases the destination's handle if that is valid, and stores the
  duplicate; from a source holding the invalid value it releases likewise and
  stores the invalid value; the source object is unchanged; assignment of an
  object to itself changes nothing.  \<open>duplicate\<close> returns the result of
  \<open>duplicate_internal\<close> on a valid handle, and the invalid value, with no
  call, otherwise.
\<close>

theorem dplhandle_copy_and_duplicate:
  "(this \<noteq> src \<and> get_m_h src w \<noteq> inval \<and> dup (get_m_h src w) = Some h_new \<longrightarrow>
      (\<exists>w'. dplhandle_assign_copy inval fi di dup this src w = Some w'
         \<and> calls w' = calls w @ [di (get_m_h src w)]
              @ (if get_m_h this w \<noteq> inval then [fi (objs w this)] else [])
         \<and> get_m_h this w' = h_new
         \<and> objs w' src = objs w src))
   \<and> (this \<noteq> src \<and> get_m_h src w = inval \<longrightarrow>
      (\<exists>w'. dplhandle_assign_copy inval fi di dup this src w = Some w'
         \<and> calls w' = calls w @ (if get_m_h this w \<noteq> inval then [fi (objs w this)] else [])
         \<and> get_m_h this w' = inval
         \<and> objs w' src = objs w src))
   \<and> dplhandle_assign_copy inval fi di dup this this w = Some w
   \<and> (get_m_h this w \<noteq> inval \<and> dup (get_m_h this w) = Some h_new \<longrightarrow>
        duplicate inval di dup this w = Some (h_new, w\<lparr>calls := calls w @ [di (get_m_h this w)]\<rparr>))
   \<and> (get_m_h this w = inval \<longrightarrow> duplicate inval di dup this w = Some (inval, w))"
  by (simp add: handle_defs dplhandle_assign_copy_def duplicate_def duplicate_internal_def Let_def)

theorem dplhandle_copy_and_duplicate_witness:
  "dplhandle_assign_copy (0::nat) m_h (\<lambda>h. h + 100) (\<lambda>h. Some (h + 1)) 0 1
      \<lparr>objs = (\<lambda>_. \<lparr>m_h = 7\<rparr>)(1 := \<lparr>m_h = 8\<rparr>), calls = []\<rparr>
     = Some \<lparr>objs = (\<lambda>_. \<lparr>m_h = 7\<rparr>)(1 := \<lparr>m_h = 8\<rparr>, 0 := \<lparr>m_h = 9\<rparr>), calls = [108, 7]\<rparr>
   \<and> duplicate (0::nat) (\<lambda>h. h + 100) (\<lambda>h. Some (h + 1)) 1
      \<lparr>objs = (\<lambda>_. \<lparr>m_h = 7\<rparr>)(1 := \<lparr>m_h = 8\<rparr>), calls = []\<rparr>
     = Some (9, \<lparr>objs = (\<lambda>_. \<lparr>m_h = 7\<rparr>)(1 := \<lparr>m_h = 8\<rparr>), calls = [108]\<rparr>)"
  using dplhandle_copy_and_duplicate
          [where this = 0 and src = 1 and inval = "0::nat" and fi = m_h and h_new = 9
             and di = "\<lambda>h. h + 100" and dup = "\<lambda>h. Some (h + 1)"
             and w = "\<lparr>objs = (\<lambda>_. \<lparr>m_h = 7\<rparr>)(1 := \<lparr>m_h = 8\<rparr>), calls = []\<rparr>"]
        dplhandle_copy_and_duplicate
          [where this = 1 and src = 0 and inval = "0::nat" and fi = m_h and h_new = 9
             and di = "\<lambda>h. h + 100" and dup = "\<lambda>h. Some (h + 1)"
             and w = "\<lparr>objs = (\<lambda>_. \<lparr>m_h = 7\<rparr>)(1 := \<lparr>m_h = 8\<rparr>), calls = []\<rparr>"]
  by (auto simp: get_m_h_def set_m_h_def dplhandle_assign_copy_def duplicate_internal_def
      free_internal_def)

section \<open>Properties of event_provider::write\<close>

lemma count_params_prefix:
  "\<forall>p \<in> set pre. \<not> is_terminator p \<Longrightarrow> is_terminator t \<Longrightarrow>
   count_params maxd pc (pre @ t # post) =
     Inr (if pc < maxd then min (pc + length pre) maxd else pc)"
  by (induction pre arbitrary: pc) auto

lemma copy_params_prefix:
  "\<forall>p \<in> set pre. \<not> is_terminator p \<Longrightarrow> is_terminator t \<Longrightarrow>
   copy_params params (pre @ t # post) = Inr (params @ pre)"
  by (induction pre arbitrary: params) auto

lemma is_terminator_blank: "is_terminator blank_event_data"
  by (simp add: is_terminator_def)

text \<open>
  Claim C6, as stated, fails for more than \<open>MAX_EVENT_DATA_DESCRIPTORS\<close>
  parameters: with 129 descriptors before the terminator and the bound 128,
  the array passed holds all 129, and the count passed is 128.
\<close>

theorem write_count_capped_counterexample:
  "write_variadic 128 1 ()
      \<lparr>Ptr = 4096, Size = 4, Reserved = 0\<rparr>
      (replicate 128 \<lparr>Ptr = 4096, Size = 4, Reserved = 0\<rparr> @ [blank_event_data])
     = Inr (EventWrite 1 () 128
         (Some (\<lparr>Ptr = 4096, Size = 4, Reserved = 0\<rparr>
                # replicate 128 \<lparr>Ptr = 4096, Size = 4, Reserved = 0\<rparr>)))
   \<and> length (\<lparr>Ptr = 4096, Size = 4, Reserved = 0\<rparr>
                # replicate 128 \<lparr>Ptr = 4096, Size = 4, Reserved = 0\<rparr>) = 129"
proof -
  let ?d = "\<lparr>Ptr = 4096, Size = 4, Reserved = 0\<rparr> :: EVENT_DATA_DESCRIPTOR"
  have nb: "\<not> is_terminator ?d"
    by (simp add: is_terminator_def blank_event_data_def)
  have all: "\<forall>p \<in> set (replicate 128 ?d). \<not> is_terminator p"
    using nb by simp
  have c: "count_params 128 (Suc 0) (replicate 128 ?d @ [blank_event_data]) = Inr 128"
    using count_params_prefix [OF all is_terminator_blank, of 128 "Suc 0" "[]"] by simp
  have p: "copy_params [?d] (replicate 128 ?d @ [blank_event_data]) = Inr (?d # replicate 128 ?d)"
    using copy_params_prefix [OF all is_terminator_blank, of "[?d]" "[]"] by simp
  show ?thesis
    using nb by (simp add: write_variadic_def c p vector_data_def)
qed

text \<open>
  Claim C6, amended.  On a registered provider, with the parameters \<open>pre\<close>
  before the first terminator \<open>t\<close>: \<open>write(EventDescriptor, param1, ...)\<close>
  passes \<open>param1\<close> followed by \<open>pre\<close>, in that order, and a count that is
  their number, or the bound \<open>MAX_EVENT_DATA_DESCRIPTORS\<close> when their number
  is larger; when \<open>param1\<close> is the terminator it passes the count 0 and a
  null array.  \<open>write(EventDescriptor, va_list)\<close> passes \<open>pre\<close> and a count
  that is the smaller of its length and the bound.
\<close>

theorem write_forwards_parameters:
  assumes "h \<noteq> 0" and "1 \<le> maxd"
      and "\<forall>p \<in> set pre. \<not> is_terminator p" and "is_terminator t"
  shows "(\<not> is_terminator param \<longrightarrow>
            write_variadic maxd h ed param (pre @ t # post) =
              Inr (EventWrite h ed (min (length (param # pre)) maxd) (Some (param # pre))))
         \<and> (is_terminator param \<longrightarrow>
            write_variadic maxd h ed param arg = Inr (EventWrite h ed 0 None))
         \<and> write_va_list maxd h ed (pre @ t # post) =
            Inr (EventWrite h ed (min (length pre) maxd) (if pre = [] then None else Some pre))"
  using assms
  by (auto simp: write_variadic_def write_va_list_def count_params_prefix copy_params_prefix
      vector_data_def)

theorem write_forwards_parameters_witness:
  "(1 :: REGHANDLE) \<noteq> 0 \<and> (1 :: nat) \<le> 128
   \<and> \<not> is_terminator \<lparr>Ptr = 8192, Size = 2, Reserved = 0\<rparr>
   \<and> is_terminator blank_event_data
   \<and> write_variadic 128 1 () \<lparr>Ptr = 4096, Size = 4, Reserved = 0\<rparr>
        ([\<lparr>Ptr = 8192, Size = 2, Reserved = 0\<rparr>] @ blank_event_data # [])
      = Inr (EventWrite 1 () 2
          (Some [\<lparr>Ptr = 4096, Size = 4, Reserved = 0\<rparr>, \<lparr>Ptr = 8192, Size = 2, Reserved = 0\<rparr>]))
   \<and> write_va_list 128 1 () ([\<lparr>Ptr = 8192, Size = 2, Reserved = 0\<rparr>] @ blank_event_data # [])
      = Inr (EventWrite 1 () 1 (Some [\<lparr>Ptr = 8192, Size = 2, Reserved = 0\<rparr>]))"
proof -
  have a: "(1 :: REGHANDLE) \<noteq> 0" and b: "(1 :: nat) \<le> 128"
    by simp_all
  have c: "\<forall>p \<in> set [\<lparr>Ptr = 8192, Size = 2, Reserved = 0\<rparr>]. \<not> is_terminator p"
    by (simp add: is_terminator_def blank_event_data_def)
  have d: "is_terminator blank_event_data"
    by (simp add: is_terminator_def)
  have e: "\<not> is_terminator \<lparr>Ptr = 4096, Size = 4, Reserved = 0\<rparr>"
    by (simp add: is_terminator_def blank_event_data_def)
  show ?thesis
    using a b c d e
      write_forwards_parameters
        [OF a b c d, where param = "\<lparr>Ptr = 4096, Size = 4, Reserved = 0\<rparr>" and ed = "()"
           and post = "[]"]
    by simp
qed

section \<open>Properties of bstr\<close>

text \<open>
  Claim C8, as stated, fails in two cases.  A string of \<open>2^32\<close> characters
  gives a \<open>bstr\<close> of length 0, since the cast to \<open>UINT\<close> keeps the low 32
  bits; and when \<open>SysAllocStringLen\<close> cannot allocate the string the \<open>bstr\<close>
  holds a null pointer, whose length is 0.
\<close>

theorem bstr_length_counterexample:
  "unat (bstr_length 0 (bstr_ctor_basic_string True (replicate 4294967296 0x41) 0
           (\<lparr>objs = (\<lambda>_. \<lparr>m_h = None\<rparr>), calls = []\<rparr> :: (BSTR handle, unit) world))) = 0
   \<and> length (replicate 4294967296 (0x41 :: wchar_t)) = 4294967296
   \<and> unat (bstr_length 0 (bstr_ctor_basic_string False [0x41] 0
           (\<lparr>objs = (\<lambda>_. \<lparr>m_h = None\<rparr>), calls = []\<rparr> :: (BSTR handle, unit) world))) = 0
   \<and> length [0x41 :: wchar_t] = 1"
  by (simp add: bstr_length_def bstr_ctor_basic_string_def handle_ctor_raw_def get_m_h_def
      set_m_h_def SysAllocStringLen_def SysStringLen_def c_str_def)

text \<open>
  Claim C8, amended.  When \<open>SysAllocStringLen\<close> succeeds and the string has
  fewer than \<open>2^32\<close> characters, the \<open>bstr\<close> built from it holds exactly those
  characters, null characters among them included, and \<open>length()\<close> returns
  their number; \<open>length()\<close> of a default-constructed \<open>bstr\<close> returns 0.
\<close>

theorem bstr_length_of_basic_string:
  "(ok \<and> length src < 2 ^ 32 \<longrightarrow>
      unat (bstr_length this (bstr_ctor_basic_string ok src this w)) = length src
      \<and> get_m_h this (bstr_ctor_basic_string ok src this w) = Some src)
   \<and> bstr_length this (bstr_ctor this w) = 0"
  by (simp add: bstr_length_def bstr_ctor_basic_string_def bstr_ctor_def handle_ctor_raw_def
      handle_ctor_def get_m_h_def set_m_h_def SysAllocStringLen_def SysStringLen_def c_str_def
      unat_of_nat)

theorem bstr_length_of_basic_string_witness:
  "length [0x41, 0, 0x42 :: wchar_t] < 2 ^ 32
   \<and> unat (bstr_length 0 (bstr_ctor_basic_string True [0x41, 0, 0x42] 0
           (\<lparr>objs = (\<lambda>_. \<lparr>m_h = None\<rparr>), calls = []\<rparr> :: (BSTR handle, unit) world))) = 3
   \<and> bstr_length 0 (bstr_ctor 0
           (\<lparr>objs = (\<lambda>_. \<lparr>m_h = Some []\<rparr>), calls = []\<rparr> :: (BSTR handle, unit) world)) = 0"
  using bstr_length_of_basic_string
          [where ok = True and src = "[0x41, 0, 0x42]" and this = 0
             and w = "\<lparr>objs = (\<lambda>_. \<lparr>m_h = None\<rparr>), calls = []\<rparr> :: (BSTR handle, unit) world"]
        bstr_length_of_basic_string
          [where ok = True and src = "[0x41, 0, 0x42]" and this = 0
             and w = "\<lparr>objs = (\<lambda>_. \<lparr>m_h = Some []\<rparr>), calls = []\<rparr> :: (BSTR handle, unit) world"]
  by simp

section \<open>Properties of variant\<close>

lemmas VT_defs = VT_EMPTY_def VT_I4_def VT_R8_def

lemma get_vt_set_vt: "get_vt (set_vt bs t) = t"
  apply (simp add: get_vt_def set_vt_def)
  apply (rule bit_word_eqI)
  apply (auto simp: bit_simps)
  done

lemma objs_variant_move_body_src:
  "this \<noteq> src \<Longrightarrow>
   objs (variant_move_body this src w) src = (objs w src)\<lparr>base := set_vt (base (objs w src)) VT_EMPTY\<rparr>"
  by (simp add: variant_move_body_def Let_def)

text \<open>
  Claim C7.  The move constructor and the move assignment do not keep the tag
  in step with the union.  On the x64 build a \<open>variant\<close> is the 8-byte pointer
  to its virtual function table followed by the 24 bytes of its \<open>VARIANT\<close>
  base.  Moving from a \<open>VARIANT\<close> tagged \<open>VT_I4\<close> with \<open>lVal = 5\<close> copies the
  source's 24 bytes to the address of the object: its first eight bytes, the
  tag among them, land on the pointer, and the base receives the source's
  union followed by eight bytes of its own.  The destination's tag is then
  the start of the source's union, 5, which is \<open>VT_R8\<close>, and its union does
  not hold the number moved.
\<close>

theorem variant_move_tag_mismatch:
  "get_vt (base (objs
       \<lparr>objs = (\<lambda>_. \<lparr>before_base = [], base = [], after_base = []\<rparr>)
          (0 := \<lparr>before_base = [0x10, 0x20, 0x30, 0x40, 0x50, 0x60, 0x70, 0],
                 base = [0, 0, 0, 0, 0, 0, 0, 0, 0, 0, 0, 0, 0, 0, 0, 0, 0, 0, 0, 0, 0, 0, 0, 0],
                 after_base = []\<rparr>,
           1 := \<lparr>before_base = [],
                 base = [3, 0, 0, 0, 0, 0, 0, 0, 5, 0, 0, 0, 0, 0, 0, 0, 0, 0, 0, 0, 0, 0, 0, 0],
                 after_base = []\<rparr>),
        calls = []\<rparr> 1)) = VT_I4
   \<and> base (objs (variant_ctor_move 0 1
       \<lparr>objs = (\<lambda>_. \<lparr>before_base = [], base = [], after_base = []\<rparr>)
          (0 := \<lparr>before_base = [0x10, 0x20, 0x30, 0x40, 0x50, 0x60, 0x70, 0],
                 base = [0, 0, 0, 0, 0, 0, 0, 0, 0, 0, 0, 0, 0, 0, 0, 0, 0, 0, 0, 0, 0, 0, 0, 0],
                 after_base = []\<rparr>,
           1 := \<lparr>before_base = [],
                 base = [3, 0, 0, 0, 0, 0, 0, 0, 5, 0, 0, 0, 0, 0, 0, 0, 0, 0, 0, 0, 0, 0, 0, 0],
                 after_base = []\<rparr>),
        calls = []\<rparr>) 0)
     = [5, 0, 0, 0, 0, 0, 0, 0, 0, 0, 0, 0, 0, 0, 0, 0, 0, 0, 0, 0, 0, 0, 0, 0]
   \<and> get_vt [5, 0, 0, 0, 0, 0, 0, 0, 0, 0, 0, 0, 0, 0, 0, 0, 0, 0, 0, 0, 0, 0, 0, 0] = VT_R8
   \<and> before_base (objs (variant_ctor_move 0 1
       \<lparr>objs = (\<lambda>_. \<lparr>before_base = [], base = [], after_base = []\<rparr>)
          (0 := \<lparr>before_base = [0x10, 0x20, 0x30, 0x40, 0x50, 0x60, 0x70, 0],
                 base = [0, 0, 0, 0, 0, 0, 0, 0, 0, 0, 0, 0, 0, 0, 0, 0, 0, 0, 0, 0, 0, 0, 0, 0],
                 after_base = []\<rparr>,
           1 := \<lparr>before_base = [],
                 base = [3, 0, 0, 0, 0, 0, 0, 0, 5, 0, 0, 0, 0, 0, 0, 0, 0, 0, 0, 0, 0, 0, 0, 0],
                 after_base = []\<rparr>),
        calls = []\<rparr>) 0)
     = [3, 0, 0, 0, 0, 0, 0, 0]
   \<and> base (objs (variant_assign_move (\<lambda>bs. set_vt bs VT_EMPTY) 0 1
       \<lparr>objs = (\<lambda>_. \<lparr>before_base = [], base = [], after_base = []\<rparr>)
          (0 := \<lparr>before_base = [0x10, 0x20, 0x30, 0x40, 0x50, 0x60, 0x70, 0],
                 base = [0, 0, 0, 0, 0, 0, 0, 0, 0, 0, 0, 0, 0, 0, 0, 0, 0, 0, 0, 0, 0, 0, 0, 0],
                 after_base = []\<rparr>,
           1 := \<lparr>before_base = [],
                 base = [3, 0, 0, 0, 0, 0, 0, 0, 5, 0, 0, 0, 0, 0, 0, 0, 0, 0, 0, 0, 0, 0, 0, 0],
                 after_base = []\<rparr>),
        calls = []\<rparr>) 0)
     = [5, 0, 0, 0, 0, 0, 0, 0, 0, 0, 0, 0, 0, 0, 0, 0, 0, 0, 0, 0, 0, 0, 0, 0]"
  by (simp add: variant_ctor_move_def variant_assign_move_def variant_move_body_def with_bytes_def
      memcpy_def object_bytes_def set_vt_def get_vt_def VT_defs Let_def)

text \<open>
  Claim C9, as stated, fails when a variant is move-assigned to itself: the
  guard \<open>this != &varSrc\<close> skips the body, and the object, which is also the
  moved-from one, keeps its tag \<open>VT_I4\<close>.
\<close>

theorem variant_move_self_counterexample:
  "get_vt (base (objs (variant_assign_move (\<lambda>bs. set_vt bs VT_EMPTY) 0 0
       \<lparr>objs = (\<lambda>_. \<lparr>before_base = [], base = [3, 0, 0, 0, 0, 0, 0, 0, 7, 0, 0, 0, 0, 0, 0, 0],
                       after_base = []\<rparr>), calls = []\<rparr>) 0)) = VT_I4
   \<and> VT_I4 \<noteq> VT_EMPTY"
  by (simp add: variant_assign_move_def get_vt_def VT_defs)

text \<open>
  Claim C9, amended.  After a move construction, and after a move assignment
  from another object, the tag of the moved-from \<open>VARIANT\<close> is \<open>VT_EMPTY\<close>.
  The move assignment calls \<open>VariantClear\<close> once, on the destination as it
  was, before it copies; the move constructor calls nothing; a move
  assignment of an object to itself changes nothing.
\<close>

theorem variant_move:
  assumes "this \<noteq> src"
  shows "get_vt (base (objs (variant_ctor_move this src w) src)) = VT_EMPTY
     \<and> get_vt (base (objs (variant_assign_move clear this src w) src)) = VT_EMPTY
     \<and> calls (variant_assign_move clear this src w)
         = calls w @ [VariantClear_call this (base (objs w this))]
     \<and> calls (variant_ctor_move this src w) = calls w
     \<and> variant_assign_move clear this this w = w"
  using assms
  by (simp add: variant_ctor_move_def variant_assign_move_def objs_variant_move_body_src
      get_vt_set_vt Let_def)
     (simp add: variant_move_body_def Let_def)

theorem variant_move_witness:
  "(0::nat) \<noteq> 1
   \<and> get_vt (base (objs (variant_assign_move (\<lambda>bs. set_vt bs VT_EMPTY) 0 1
       \<lparr>objs = (\<lambda>_. \<lparr>before_base = [], base = [], after_base = []\<rparr>)
          (0 := \<lparr>before_base = [0x10, 0x20, 0x30, 0x40, 0x50, 0x60, 0x70, 0],
                 base = [5, 0, 0, 0, 0, 0, 0, 0, 9, 0, 0, 0, 0, 0, 0, 0, 0, 0, 0, 0, 0, 0, 0, 0],
                 after_base = []\<rparr>,
           1 := \<lparr>before_base = [],
                 base = [3, 0, 0, 0, 0, 0, 0, 0, 5, 0, 0, 0, 0, 0, 0, 0, 0, 0, 0, 0, 0, 0, 0, 0],
                 after_base = []\<rparr>),
        calls = []\<rparr>) 1)) = VT_EMPTY
   \<and> calls (variant_assign_move (\<lambda>bs. set_vt bs VT_EMPTY) 0 1
       \<lparr>objs = (\<lambda>_. \<lparr>before_base = [], base = [], after_base = []\<rparr>)
          (0 := \<lparr>before_base = [0x10, 0x20, 0x30, 0x40, 0x50, 0x60, 0x70, 0],
                 base = [5, 0, 0, 0, 0, 0, 0, 0, 9, 0, 0, 0, 0, 0, 0, 0, 0, 0, 0, 0, 0, 0, 0, 0],
                 after_base = []\<rparr>,
           1 := \<lparr>before_base = [],
                 base = [3, 0, 0, 0, 0, 0, 0, 0, 5, 0, 0, 0, 0, 0, 0, 0, 0, 0, 0, 0, 0, 0, 0, 0],
                 after_base = []\<rparr>),
        calls = []\<rparr>)
       = [VariantClear_call 0 [5, 0, 0, 0, 0, 0, 0, 0, 9, 0, 0, 0, 0, 0, 0, 0, 0, 0, 0, 0, 0, 0, 0, 0]]"
proof -
  have ne: "(0::nat) \<noteq> 1" by simp
  show ?thesis
    using variant_move
        [OF ne, where clear = "\<lambda>bs. set_vt bs VT_EMPTY"
           and w = "\<lparr>objs = (\<lambda>_. \<lparr>before_base = [], base = [], after_base = []\<rparr>)
          (0 := \<lparr>before_base = [0x10, 0x20, 0x30, 0x40, 0x50, 0x60, 0x70, 0],
                 base = [5, 0, 0, 0, 0, 0, 0, 0, 9, 0, 0, 0, 0, 0, 0, 0, 0, 0, 0, 0, 0, 0, 0, 0],
                 after_base = []\<rparr>,
           1 := \<lparr>before_base = [],
                 base = [3, 0, 0, 0, 0, 0, 0, 0, 5, 0, 0, 0, 0, 0, 0, 0, 0, 0, 0, 0, 0, 0, 0, 0],
                 after_base = []\<rparr>),
        calls = []\<rparr>"]
    by simp
qed

section \<open>Properties of event_rec\<close>

lemma in_blockI:
  "(b, s) \<in> set (blocks h) \<Longrightarrow> b \<le> a \<Longrightarrow> a + n \<le> b + s \<Longrightarrow> in_block h a n"
  by (auto simp: in_block_def list_ex_iff)

lemma in_block_sub:
  "in_block h a n \<Longrightarrow> a \<le> a' \<Longrightarrow> a' + n' \<le> a + n \<Longrightarrow> in_block h a' n'"
proof -
  assume a: "in_block h a n" and b: "a \<le> a'" and c: "a' + n' \<le> a + n"
  from a obtain bb ss where m: "(bb, ss) \<in> set (blocks h)" and r: "bb \<le> a" "a + n \<le> bb + ss"
    by (auto simp: in_block_def list_ex_iff)
  show ?thesis
    by (rule in_blockI [OF m]) (use b c r in linarith)+
qed

lemma block_le_heap_end:
  "(b, s) \<in> set (blocks h) \<Longrightarrow> b + s \<le> heap_end h"
proof -
  have "(b, s) \<in> set bl \<Longrightarrow> b + s \<le> foldr (\<lambda>(b, s) m. max (b + s) m) bl 0" for bl
    by (induction bl) auto
  then show "(b, s) \<in> set (blocks h) \<Longrightarrow> b + s \<le> heap_end h"
    by (simp add: heap_end_def)
qed

lemma in_block_heap_end: "in_block h a n \<Longrightarrow> a + n \<le> heap_end h"
proof -
  assume a: "in_block h a n"
  from a obtain bb ss where m: "(bb, ss) \<in> set (blocks h)" and r: "bb \<le> a" "a + n \<le> bb + ss"
    by (auto simp: in_block_def list_ex_iff)
  from block_le_heap_end [OF m] r show ?thesis by linarith
qed

lemma sum_data_size_spec:
  "\<forall>j<length rest. read_item h (data + sizeof_item * (i + j)) = Inr (rest ! j) \<Longrightarrow>
   sum_data_size h data i (length rest) acc = Inr (acc + sum_list (map dsize rest))"
proof (induction rest arbitrary: i acc)
  case Nil
  then show ?case by simp
next
  case (Cons d rest)
  have hd: "read_item h (data + sizeof_item * i) = Inr d"
    using Cons.prems by force
  have tl: "\<forall>j<length rest. read_item h (data + sizeof_item * (Suc i + j)) = Inr (rest ! j)"
    using Cons.prems by force
  show ?case
    using Cons.IH [OF tl] hd by simp
qed

lemma read_item_eq:
  "cells h a = Item d \<Longrightarrow> in_block h a sizeof_item \<Longrightarrow> read_item h a = Inr d"
  by (simp add: read_item_def)

lemma copy_data_spec:
  assumes "\<forall>j<length rest. cells g (data + sizeof_item * (i + j)) = Item (rest ! j)
              \<and> in_block g (data + sizeof_item * (i + j)) sizeof_item"
      and "\<forall>j<length rest. cells g (ed + sizeof_item * (i + j)) = Item (rest ! j)"
      and "(ed, tot) \<in> set (blocks g)"
      and "\<forall>j<length rest. DataSize (rest ! j) \<noteq> 0 \<longrightarrow>
              in_block g (DataPtr (rest ! j)) (dsize (rest ! j))
              \<and> DataPtr (rest ! j) + dsize (rest ! j) \<le> ed"
      and "data + sizeof_item * (i + length rest) \<le> ed"
      and "ed + sizeof_item * (i + length rest) \<le> ptr"
      and "ptr + sum_list (map dsize rest) \<le> ed + tot"
  shows "\<exists>g'. copy_data g ed data i (length rest) ptr = Inr g'
      \<and> blocks g' = blocks g
      \<and> (\<forall>a. a < ed + sizeof_item * i \<longrightarrow> cells g' a = cells g a)
      \<and> (\<forall>a. ed + sizeof_item * (i + length rest) \<le> a \<and> a < ptr \<longrightarrow> cells g' a = cells g a)
      \<and> (\<forall>j<length rest. cells g' (ed + sizeof_item * (i + j)) =
            Item ((rest ! j)\<lparr>DataPtr :=
              (if DataSize (rest ! j) = 0 then 0 else ptr + sum_list (map dsize (take j rest)))\<rparr>))
      \<and> (\<forall>j<length rest. DataSize (rest ! j) \<noteq> 0 \<longrightarrow>
            (\<forall>k < dsize (rest ! j).
               cells g' (ptr + sum_list (map dsize (take j rest)) + k) = cells g (DataPtr (rest ! j) + k)))"
  using assms
proof (induction rest arbitrary: i g ptr)
  case Nil
  then show ?case by simp
next
  case (Cons d rest)
  let ?n = "dsize d"
  have src0: "cells g (data + sizeof_item * i) = Item d"
    and srcb0: "in_block g (data + sizeof_item * i) sizeof_item"
    using Cons.prems(1) by force+
  have rd: "read_item g (data + sizeof_item * i) = Inr d"
    by (rule read_item_eq [OF src0 srcb0])
  have dst0: "cells g (ed + sizeof_item * i) = Item d"
    using Cons.prems(2) by force
  have blk: "(ed, tot) \<in> set (blocks g)" by (rule Cons.prems(3))
  have below: "data + sizeof_item * (i + Suc (length rest)) \<le> ed"
    using Cons.prems(5) by simp
  have lay1: "ed + sizeof_item * (i + Suc (length rest)) \<le> ptr"
    using Cons.prems(6) by simp
  have lay2: "ptr + ?n + sum_list (map dsize rest) \<le> ed + tot"
    using Cons.prems(7) by simp
  have dstb: "in_block g (ed + sizeof_item * i) sizeof_item"
    by (rule in_blockI [OF blk]) (use lay1 lay2 in \<open>simp_all add: sizeof_item_def\<close>)
  \<comment> \<open>the heap after this iteration\<close>
  define g1 where "g1 =
    (if DataSize d \<noteq> 0
     then g\<lparr>cells := (\<lambda>a. if ptr \<le> a \<and> a < ptr + ?n then cells g (DataPtr d + (a - ptr)) else cells g a)\<rparr>
     else g)"
  define p where "p = (if DataSize d \<noteq> 0 then ptr else 0)"
  define g2 where "g2 = g1\<lparr>cells := (cells g1)(ed + sizeof_item * i := Item (d\<lparr>DataPtr := p\<rparr>))\<rparr>"
  define ptr' where "ptr' = (if DataSize d \<noteq> 0 then ptr + ?n else ptr)"
  have blocks1: "blocks g1 = blocks g" and blocks2: "blocks g2 = blocks g"
    by (simp_all add: g1_def g2_def)
  have cells1_low: "cells g1 a = cells g a" if "a < ptr" for a
    using that by (simp add: g1_def)
  have cells2: "cells g2 a = (if a = ed + sizeof_item * i then Item (d\<lparr>DataPtr := p\<rparr>) else cells g1 a)" for a
    by (simp add: g2_def)
  have step: "copy_data g ed data i (length (d # rest)) ptr
                = copy_data g2 ed data (Suc i) (length rest) ptr'"
  proof (cases "DataSize d = 0")
    case True
    have "write_DataPtr g (ed + sizeof_item * i) 0 = Inr g2"
      using True read_item_eq [OF dst0 dstb]
      by (simp add: write_DataPtr_def g2_def g1_def p_def)
    then show ?thesis using True rd by (simp add: ptr'_def)
  next
    case False
    have sd: "in_block g (DataPtr d) ?n"
      using Cons.prems(4) False by force
    have dd: "in_block g ptr ?n"
      by (rule in_blockI [OF blk]) (use lay1 lay2 in \<open>simp_all add: sizeof_item_def\<close>)
    have m: "memcpy_heap g ptr (DataPtr d) ?n = Inr g1"
      using sd dd False by (simp add: memcpy_heap_def g1_def)
    have "cells g1 (ed + sizeof_item * i) = Item d"
      using dst0 lay1 by (simp add: cells1_low sizeof_item_def)
    moreover have "in_block g1 (ed + sizeof_item * i) sizeof_item"
      using dstb by (simp add: in_block_def blocks1)
    ultimately have "write_DataPtr g1 (ed + sizeof_item * i) ptr = Inr g2"
      using False by (simp add: write_DataPtr_def read_item_eq g2_def p_def)
    then show ?thesis using False rd m by (simp add: ptr'_def)
  qed
  have ptr_le: "ptr \<le> ptr'" and ptr'_le: "ptr' \<le> ptr + ?n"
    by (simp_all add: ptr'_def)
  have ptr'_eq: "DataSize d \<noteq> 0 \<Longrightarrow> ptr' = ptr + ?n" and ptr'_eq0: "DataSize d = 0 \<Longrightarrow> ptr' = ptr"
    by (simp_all add: ptr'_def)
  have n0: "DataSize d = 0 \<Longrightarrow> ?n = 0"
    by simp
  \<comment> \<open>cells of \<open>g2\<close> below the data area, other than the item just written\<close>
  have cells2_low: "cells g2 a = cells g a" if "a < ptr" "a \<noteq> ed + sizeof_item * i" for a
    using that by (simp add: cells2 cells1_low)
  have ih: "\<exists>g'. copy_data g2 ed data (Suc i) (length rest) ptr' = Inr g'
      \<and> blocks g' = blocks g2
      \<and> (\<forall>a. a < ed + sizeof_item * Suc i \<longrightarrow> cells g' a = cells g2 a)
      \<and> (\<forall>a. ed + sizeof_item * (Suc i + length rest) \<le> a \<and> a < ptr' \<longrightarrow> cells g' a = cells g2 a)
      \<and> (\<forall>j<length rest. cells g' (ed + sizeof_item * (Suc i + j)) =
            Item ((rest ! j)\<lparr>DataPtr :=
              (if DataSize (rest ! j) = 0 then 0 else ptr' + sum_list (map dsize (take j rest)))\<rparr>))
      \<and> (\<forall>j<length rest. DataSize (rest ! j) \<noteq> 0 \<longrightarrow>
            (\<forall>k < dsize (rest ! j).
               cells g' (ptr' + sum_list (map dsize (take j rest)) + k) = cells g2 (DataPtr (rest ! j) + k)))"
  proof (rule Cons.IH)
    show "\<forall>j<length rest. cells g2 (data + sizeof_item * (Suc i + j)) = Item (rest ! j)
              \<and> in_block g2 (data + sizeof_item * (Suc i + j)) sizeof_item"
    proof (intro allI impI)
      fix j assume j: "j < length rest"
      have a: "cells g (data + sizeof_item * (i + Suc j)) = Item ((d # rest) ! Suc j)"
        and b: "in_block g (data + sizeof_item * (i + Suc j)) sizeof_item"
        using Cons.prems(1) j by force+
      have lt: "data + sizeof_item * (Suc i + j) < ptr" "data + sizeof_item * (Suc i + j) \<noteq> ed + sizeof_item * i"
        using below lay1 j by (simp_all add: sizeof_item_def)
      show "cells g2 (data + sizeof_item * (Suc i + j)) = Item (rest ! j)
              \<and> in_block g2 (data + sizeof_item * (Suc i + j)) sizeof_item"
        using a b cells2_low [OF lt] by (simp add: in_block_def blocks2)
    qed
    show "\<forall>j<length rest. cells g2 (ed + sizeof_item * (Suc i + j)) = Item (rest ! j)"
    proof (intro allI impI)
      fix j assume j: "j < length rest"
      have a: "cells g (ed + sizeof_item * (i + Suc j)) = Item ((d # rest) ! Suc j)"
        using Cons.prems(2) j by force
      have lt: "ed + sizeof_item * (Suc i + j) < ptr" "ed + sizeof_item * (Suc i + j) \<noteq> ed + sizeof_item * i"
        using lay1 j by (simp_all add: sizeof_item_def)
      show "cells g2 (ed + sizeof_item * (Suc i + j)) = Item (rest ! j)"
        using a cells2_low [OF lt] by simp
    qed
    show "(ed, tot) \<in> set (blocks g2)" using blk by (simp add: blocks2)
    show "\<forall>j<length rest. DataSize (rest ! j) \<noteq> 0 \<longrightarrow>
              in_block g2 (DataPtr (rest ! j)) (dsize (rest ! j))
              \<and> DataPtr (rest ! j) + dsize (rest ! j) \<le> ed"
    proof (intro allI impI)
      fix j assume j: "j < length rest" and nz: "DataSize (rest ! j) \<noteq> 0"
      have "DataSize ((d # rest) ! Suc j) \<noteq> 0 \<longrightarrow>
              in_block g (DataPtr ((d # rest) ! Suc j)) (dsize ((d # rest) ! Suc j))
              \<and> DataPtr ((d # rest) ! Suc j) + dsize ((d # rest) ! Suc j) \<le> ed"
        using Cons.prems(4) j by force
      then show "in_block g2 (DataPtr (rest ! j)) (dsize (rest ! j))
              \<and> DataPtr (rest ! j) + dsize (rest ! j) \<le> ed"
        using nz by (simp add: in_block_def blocks2)
    qed
    show "data + sizeof_item * (Suc i + length rest) \<le> ed" using below by simp
    show "ed + sizeof_item * (Suc i + length rest) \<le> ptr'" using lay1 ptr_le by simp
    show "ptr' + sum_list (map dsize rest) \<le> ed + tot" using lay2 ptr'_le by simp
  qed
  then obtain g' where
        run: "copy_data g2 ed data (Suc i) (length rest) ptr' = Inr g'"
    and bl: "blocks g' = blocks g2"
    and fr1: "\<And>a. a < ed + sizeof_item * Suc i \<Longrightarrow> cells g' a = cells g2 a"
    and fr2: "\<And>a. ed + sizeof_item * (Suc i + length rest) \<le> a \<Longrightarrow> a < ptr' \<Longrightarrow> cells g' a = cells g2 a"
    and it: "\<And>j. j < length rest \<Longrightarrow> cells g' (ed + sizeof_item * (Suc i + j)) =
            Item ((rest ! j)\<lparr>DataPtr :=
              (if DataSize (rest ! j) = 0 then 0 else ptr' + sum_list (map dsize (take j rest)))\<rparr>)"
    and dt: "\<And>j k. j < length rest \<Longrightarrow> DataSize (rest ! j) \<noteq> 0 \<Longrightarrow> k < dsize (rest ! j) \<Longrightarrow>
               cells g' (ptr' + sum_list (map dsize (take j rest)) + k) = cells g2 (DataPtr (rest ! j) + k)"
    by blast
  have c1: "copy_data g ed data i (length (d # rest)) ptr = Inr g'"
    using step run by simp
  have c2: "blocks g' = blocks g" using bl blocks2 by simp
  have c3: "cells g' a = cells g a" if "a < ed + sizeof_item * i" for a
  proof -
    have "cells g' a = cells g2 a" using that by (intro fr1) (simp add: sizeof_item_def)
    also have "\<dots> = cells g a" using that lay1 by (intro cells2_low) (simp_all add: sizeof_item_def)
    finally show ?thesis .
  qed
  have c4: "cells g' a = cells g a" if "ed + sizeof_item * (i + length (d # rest)) \<le> a" "a < ptr" for a
  proof -
    have "cells g' a = cells g2 a" using that ptr_le by (intro fr2) simp_all
    also have "\<dots> = cells g a" using that by (intro cells2_low) (simp_all add: sizeof_item_def)
    finally show ?thesis .
  qed
  have c5: "cells g' (ed + sizeof_item * (i + j)) =
            Item (((d # rest) ! j)\<lparr>DataPtr :=
              (if DataSize ((d # rest) ! j) = 0 then 0 else ptr + sum_list (map dsize (take j (d # rest))))\<rparr>)"
    if "j < length (d # rest)" for j
  proof (cases j)
    case 0
    have "cells g' (ed + sizeof_item * i) = cells g2 (ed + sizeof_item * i)"
      by (intro fr1) (simp add: sizeof_item_def)
    then show ?thesis using 0 by (simp add: cells2 p_def)
  next
    case (Suc j')
    then have j': "j' < length rest" using that by simp
    show ?thesis
      using it [OF j'] Suc ptr'_eq ptr'_eq0 n0
      by (cases "DataSize d = 0") (simp_all add: add.assoc)
  qed
  have c6: "cells g' (ptr + sum_list (map dsize (take j (d # rest))) + k) = cells g (DataPtr ((d # rest) ! j) + k)"
    if "j < length (d # rest)" "DataSize ((d # rest) ! j) \<noteq> 0" "k < dsize ((d # rest) ! j)" for j k
  proof (cases j)
    case 0
    then have nz: "DataSize d \<noteq> 0" and k: "k < ?n" using that by simp_all
    have "cells g' (ptr + k) = cells g2 (ptr + k)"
      using k lay1 ptr'_eq [OF nz] by (intro fr2) simp_all
    also have "\<dots> = cells g1 (ptr + k)"
      using lay1 by (simp add: cells2 sizeof_item_def)
    also have "\<dots> = cells g (DataPtr d + k)"
      using nz k by (simp add: g1_def)
    finally show ?thesis using 0 by simp
  next
    case (Suc j')
    then have j': "j' < length rest" and nz: "DataSize (rest ! j') \<noteq> 0" and k: "k < dsize (rest ! j')"
      using that by simp_all
    have bound: "DataPtr (rest ! j') + dsize (rest ! j') \<le> ed"
      using Cons.prems(4) j' nz by force
    have "cells g' (ptr' + sum_list (map dsize (take j' rest)) + k) = cells g2 (DataPtr (rest ! j') + k)"
      by (rule dt [OF j' nz k])
    also have "\<dots> = cells g (DataPtr (rest ! j') + k)"
      using bound k lay1 by (intro cells2_low) (simp_all add: sizeof_item_def)
    finally show ?thesis
      using Suc ptr'_eq ptr'_eq0 n0 by (cases "DataSize d = 0") (simp_all add: add.assoc)
  qed
  show ?case
    using c1 c2 c3 c4 c5 c6 by blast
qed

lemma sum_take_le:
  "j < length ds \<Longrightarrow> sum_list (map dsize (take j ds)) + dsize (ds ! j) \<le> sum_list (map dsize ds)"
proof -
  assume j: "j < length ds"
  have "sum_list (map dsize ds) = sum_list (map dsize (take (Suc j) ds)) + sum_list (map dsize (drop (Suc j) ds))"
    by (metis append_take_drop_id map_append sum_list_append)
  moreover have "sum_list (map dsize (take (Suc j) ds)) = sum_list (map dsize (take j ds)) + dsize (ds ! j)"
    using j by (simp add: take_Suc_conv_app_nth)
  ultimately show ?thesis by simp
qed

lemma set_extended_data_internal_spec:
  assumes len: "length ds = unat count"
      and nn: "ds \<noteq> [] \<longrightarrow> data \<noteq> 0 \<and> in_block h data (sizeof_item * length ds)"
      and items: "\<forall>j<length ds. cells h (data + sizeof_item * j) = Item (ds ! j)
                    \<and> (DataSize (ds ! j) \<noteq> 0 \<longrightarrow> in_block h (DataPtr (ds ! j)) (dsize (ds ! j)))"
  shows "\<exists>h'. set_extended_data_internal count data (this, h) =
            Inr (this\<lparr>ExtendedData := (if ds = [] then 0 else Suc (heap_end h)),
                      ExtendedDataCount := count\<rparr>, h')
      \<and> blocks h' =
            (if ds = [] then blocks h
             else (Suc (heap_end h), sizeof_item * length ds + sum_list (map dsize ds)) # blocks h)
      \<and> (\<forall>a. a \<le> heap_end h \<longrightarrow> cells h' a = cells h a)
      \<and> (\<forall>j<length ds. cells h' (Suc (heap_end h) + sizeof_item * j) =
            Item ((ds ! j)\<lparr>DataPtr :=
              (if DataSize (ds ! j) = 0 then 0
               else Suc (heap_end h) + sizeof_item * length ds + sum_list (map dsize (take j ds)))\<rparr>))
      \<and> (\<forall>j<length ds. DataSize (ds ! j) \<noteq> 0 \<longrightarrow>
            (\<forall>k < dsize (ds ! j).
               cells h' (Suc (heap_end h) + sizeof_item * length ds + sum_list (map dsize (take j ds)) + k)
                 = cells h (DataPtr (ds ! j) + k)))"
proof (cases "ds = []")
  case True
  then have "count = 0" using len by (simp add: unat_eq_0)
  then show ?thesis using True by (simp add: set_extended_data_internal_def)
next
  case False
  then have c0: "count \<noteq> 0" using len by auto
  have d0: "data \<noteq> 0" and db: "in_block h data (sizeof_item * length ds)"
    using nn False by simp_all
  let ?ed = "Suc (heap_end h)"
  let ?S = "sum_list (map dsize ds)"
  let ?tot = "sizeof_item * length ds + ?S"
  define h1 where "h1 = h\<lparr>blocks := (?ed, ?tot) # blocks h\<rparr>"
  define h2 where "h2 = h1\<lparr>cells := (\<lambda>a. if ?ed \<le> a \<and> a < ?ed + sizeof_item * length ds
                                        then cells h1 (data + (a - ?ed)) else cells h1 a)\<rparr>"
  have new: "new h ?tot = (?ed, h1)" by (simp add: new_def h1_def)
  have cells1: "cells h1 = cells h" by (simp add: h1_def)
  have blocks2: "blocks h2 = (?ed, ?tot) # blocks h" by (simp add: h2_def h1_def)
  have mono: "in_block h a n \<Longrightarrow> in_block h2 a n" for a n
    by (auto simp: in_block_def blocks2)
  have blk: "(?ed, ?tot) \<in> set (blocks h2)" by (simp add: blocks2)
  have rd: "\<forall>j<length ds. read_item h (data + sizeof_item * (0 + j)) = Inr (ds ! j)"
  proof (intro allI impI)
    fix j assume j: "j < length ds"
    have "in_block h (data + sizeof_item * j) sizeof_item"
      by (rule in_block_sub [OF db]) (use j in \<open>simp_all add: sizeof_item_def\<close>)
    then show "read_item h (data + sizeof_item * (0 + j)) = Inr (ds ! j)"
      using items j by (simp add: read_item_eq)
  qed
  have sum: "sum_data_size h data 0 (unat count) 0 = Inr ?S"
    using sum_data_size_spec [OF rd, of 0] len by simp
  have data_end: "data + sizeof_item * length ds \<le> heap_end h"
    by (rule in_block_heap_end [OF db])
  have m: "memcpy_heap h1 ?ed data (sizeof_item * unat count) = Inr h2"
  proof -
    have "in_block h1 ?ed (sizeof_item * length ds)"
      by (rule in_blockI [of ?ed ?tot]) (simp_all add: h1_def)
    moreover have "in_block h1 data (sizeof_item * length ds)"
      using db by (auto simp: in_block_def h1_def)
    ultimately show ?thesis by (simp add: memcpy_heap_def h2_def len)
  qed
  have low2: "cells h2 a = cells h a" if "a \<le> heap_end h" for a
    using that by (simp add: h2_def cells1)
  have loop: "\<exists>g'. copy_data h2 ?ed data 0 (length ds) (?ed + sizeof_item * length ds) = Inr g'
      \<and> blocks g' = blocks h2
      \<and> (\<forall>a. a < ?ed + sizeof_item * 0 \<longrightarrow> cells g' a = cells h2 a)
      \<and> (\<forall>a. ?ed + sizeof_item * (0 + length ds) \<le> a \<and> a < ?ed + sizeof_item * length ds
             \<longrightarrow> cells g' a = cells h2 a)
      \<and> (\<forall>j<length ds. cells g' (?ed + sizeof_item * (0 + j)) =
            Item ((ds ! j)\<lparr>DataPtr :=
              (if DataSize (ds ! j) = 0 then 0
               else ?ed + sizeof_item * length ds + sum_list (map dsize (take j ds)))\<rparr>))
      \<and> (\<forall>j<length ds. DataSize (ds ! j) \<noteq> 0 \<longrightarrow>
            (\<forall>k < dsize (ds ! j).
               cells g' (?ed + sizeof_item * length ds + sum_list (map dsize (take j ds)) + k)
                 = cells h2 (DataPtr (ds ! j) + k)))"
  proof (rule copy_data_spec [where tot = ?tot])
    show "\<forall>j<length ds. cells h2 (data + sizeof_item * (0 + j)) = Item (ds ! j)
              \<and> in_block h2 (data + sizeof_item * (0 + j)) sizeof_item"
    proof (intro allI impI)
      fix j assume j: "j < length ds"
      have ib: "in_block h (data + sizeof_item * j) sizeof_item"
        by (rule in_block_sub [OF db]) (use j in \<open>simp_all add: sizeof_item_def\<close>)
      have "data + sizeof_item * j \<le> heap_end h"
        using in_block_heap_end [OF ib] by simp
      then show "cells h2 (data + sizeof_item * (0 + j)) = Item (ds ! j)
              \<and> in_block h2 (data + sizeof_item * (0 + j)) sizeof_item"
        using items j mono [OF ib] by (simp add: low2)
    qed
    show "\<forall>j<length ds. cells h2 (?ed + sizeof_item * (0 + j)) = Item (ds ! j)"
    proof (intro allI impI)
      fix j assume j: "j < length ds"
      then have "sizeof_item * j < sizeof_item * length ds" by (simp add: sizeof_item_def)
      then show "cells h2 (?ed + sizeof_item * (0 + j)) = Item (ds ! j)"
        using items j by (simp add: h2_def cells1)
    qed
    show "(?ed, ?tot) \<in> set (blocks h2)" by (rule blk)
    show "\<forall>j<length ds. DataSize (ds ! j) \<noteq> 0 \<longrightarrow>
              in_block h2 (DataPtr (ds ! j)) (dsize (ds ! j)) \<and> DataPtr (ds ! j) + dsize (ds ! j) \<le> ?ed"
    proof (intro allI impI)
      fix j assume j: "j < length ds" and nz: "DataSize (ds ! j) \<noteq> 0"
      have ib: "in_block h (DataPtr (ds ! j)) (dsize (ds ! j))" using items j nz by simp
      show "in_block h2 (DataPtr (ds ! j)) (dsize (ds ! j)) \<and> DataPtr (ds ! j) + dsize (ds ! j) \<le> ?ed"
        using mono [OF ib] in_block_heap_end [OF ib] by simp
    qed
    show "data + sizeof_item * (0 + length ds) \<le> ?ed" using data_end by simp
    show "?ed + sizeof_item * (0 + length ds) \<le> ?ed + sizeof_item * length ds" by simp
    show "?ed + sizeof_item * length ds + ?S \<le> ?ed + ?tot" by simp
  qed
  then obtain g' where
        run: "copy_data h2 ?ed data 0 (length ds) (?ed + sizeof_item * length ds) = Inr g'"
    and bl: "blocks g' = blocks h2"
    and fr: "\<And>a. a < ?ed \<Longrightarrow> cells g' a = cells h2 a"
    and it: "\<And>j. j < length ds \<Longrightarrow> cells g' (?ed + sizeof_item * j) =
            Item ((ds ! j)\<lparr>DataPtr :=
              (if DataSize (ds ! j) = 0 then 0
               else ?ed + sizeof_item * length ds + sum_list (map dsize (take j ds)))\<rparr>)"
    and dt: "\<And>j k. j < length ds \<Longrightarrow> DataSize (ds ! j) \<noteq> 0 \<Longrightarrow> k < dsize (ds ! j) \<Longrightarrow>
               cells g' (?ed + sizeof_item * length ds + sum_list (map dsize (take j ds)) + k)
                 = cells h2 (DataPtr (ds ! j) + k)"
    by auto
  have r1: "set_extended_data_internal count data (this, h) =
            Inr (this\<lparr>ExtendedData := ?ed, ExtendedDataCount := count\<rparr>, g')"
    using c0 d0 sum new m run len by (simp add: set_extended_data_internal_def)
  have r3: "cells g' a = cells h a" if "a \<le> heap_end h" for a
    using that fr [of a] low2 [of a] by simp
  have r5: "cells g' (?ed + sizeof_item * length ds + sum_list (map dsize (take j ds)) + k)
                 = cells h (DataPtr (ds ! j) + k)"
    if "j < length ds" "DataSize (ds ! j) \<noteq> 0" "k < dsize (ds ! j)" for j k
  proof -
    have ib: "in_block h (DataPtr (ds ! j)) (dsize (ds ! j))" using items that by simp
    have "DataPtr (ds ! j) + k \<le> heap_end h"
      using in_block_heap_end [OF ib] that by simp
    then show ?thesis using dt [OF that] low2 by simp
  qed
  show ?thesis
    using False r1 bl blocks2 r3 it r5 by auto
qed

lemma set_user_data_internal_spec:
  assumes "usz \<noteq> 0 \<longrightarrow> data \<noteq> 0 \<and> in_block h data (unat usz)"
  shows "\<exists>h'. set_user_data_internal usz data (this, h) =
            Inr (this\<lparr>UserData := (if usz = 0 then 0 else Suc (heap_end h)), UserDataLength := usz\<rparr>, h')
      \<and> blocks h' = (if usz = 0 then blocks h else (Suc (heap_end h), unat usz) # blocks h)
      \<and> (\<forall>a. a \<le> heap_end h \<longrightarrow> cells h' a = cells h a)
      \<and> (\<forall>k < unat usz. cells h' (Suc (heap_end h) + k) = cells h (data + k))"
proof (cases "usz = 0")
  case True
  then show ?thesis by (simp add: set_user_data_internal_def)
next
  case False
  then have d0: "data \<noteq> 0" and db: "in_block h data (unat usz)"
    using assms by simp_all
  let ?ud = "Suc (heap_end h)"
  define h1 where "h1 = h\<lparr>blocks := (?ud, unat usz) # blocks h\<rparr>"
  define h2 where "h2 = h1\<lparr>cells := (\<lambda>a. if ?ud \<le> a \<and> a < ?ud + unat usz
                                        then cells h1 (data + (a - ?ud)) else cells h1 a)\<rparr>"
  have new: "new h (unat usz) = (?ud, h1)" by (simp add: new_def h1_def)
  have "in_block h1 ?ud (unat usz)"
    by (rule in_blockI [of ?ud "unat usz"]) (simp_all add: h1_def)
  moreover have "in_block h1 data (unat usz)"
    using db by (auto simp: in_block_def h1_def)
  ultimately have m: "memcpy_heap h1 ?ud data (unat usz) = Inr h2"
    by (simp add: memcpy_heap_def h2_def)
  have "set_user_data_internal usz data (this, h) =
          Inr (this\<lparr>UserData := ?ud, UserDataLength := usz\<rparr>, h2)"
    using False d0 new m by (simp add: set_user_data_internal_def)
  moreover have "blocks h2 = (?ud, unat usz) # blocks h" by (simp add: h2_def h1_def)
  moreover have "\<forall>a. a \<le> heap_end h \<longrightarrow> cells h2 a = cells h a" by (simp add: h2_def h1_def)
  moreover have "\<forall>k < unat usz. cells h2 (?ud + k) = cells h (data + k)" by (simp add: h2_def h1_def)
  ultimately show ?thesis using False by auto
qed

text \<open>
  Claim C10.  Let the record copied hold, at \<open>ExtendedData\<close>, the items \<open>ds\<close>
  in allocated memory, each with its data in allocated memory when its
  \<open>DataSize\<close> is not zero, and its user data in allocated memory when
  \<open>UserDataLength\<close> is not zero.  Then the copy constructor returns, and:
  the memory allocated before is as it was; the copy's \<open>ExtendedData\<close> is
  null when the count is zero and otherwise a new block beyond every block
  allocated before, of the size of the items and their data; item \<open>j\<close> of
  that block is item \<open>j\<close> of the source with \<open>DataPtr\<close> null when its
  \<open>DataSize\<close> is zero and otherwise pointing behind the items into the same
  block, at a copy of the source's data; the copy's \<open>UserData\<close> is null when
  the length is zero and otherwise another new block, beyond the first,
  holding a copy of the source's user data.
\<close>

theorem event_rec_copy_is_deep:
  assumes len: "length ds = unat (ExtendedDataCount other)"
      and nn: "ds \<noteq> [] \<longrightarrow>
                 ExtendedData other \<noteq> 0 \<and> in_block h (ExtendedData other) (sizeof_item * length ds)"
      and items: "\<forall>j<length ds. cells h (ExtendedData other + sizeof_item * j) = Item (ds ! j)
                    \<and> (DataSize (ds ! j) \<noteq> 0 \<longrightarrow> in_block h (DataPtr (ds ! j)) (dsize (ds ! j)))"
      and user: "UserDataLength other \<noteq> 0 \<longrightarrow>
                 UserData other \<noteq> 0 \<and> in_block h (UserData other) (unat (UserDataLength other))"
  shows "\<exists>this h'. event_rec_ctor_copy other h = Inr (this, h')
      \<and> EventHeader this = EventHeader other
      \<and> ExtendedDataCount this = ExtendedDataCount other
      \<and> UserDataLength this = UserDataLength other
      \<and> (\<forall>a. a \<le> heap_end h \<longrightarrow> cells h' a = cells h a)
      \<and> (ExtendedDataCount other = 0 \<longrightarrow> ExtendedData this = 0)
      \<and> (ExtendedDataCount other \<noteq> 0 \<longrightarrow>
            (ExtendedData this, sizeof_item * length ds + sum_list (map dsize ds)) \<in> set (blocks h')
            \<and> (\<forall>(b, s) \<in> set (blocks h). b + s < ExtendedData this))
      \<and> (\<forall>j<length ds. \<exists>p.
            cells h' (ExtendedData this + sizeof_item * j) = Item ((ds ! j)\<lparr>DataPtr := p\<rparr>)
            \<and> (DataSize (ds ! j) = 0 \<longrightarrow> p = 0)
            \<and> (DataSize (ds ! j) \<noteq> 0 \<longrightarrow>
                 ExtendedData this + sizeof_item * length ds \<le> p
                 \<and> p + dsize (ds ! j) \<le> ExtendedData this + sizeof_item * length ds + sum_list (map dsize ds)
                 \<and> (\<forall>k < dsize (ds ! j). cells h' (p + k) = cells h (DataPtr (ds ! j) + k))))
      \<and> (UserDataLength other = 0 \<longrightarrow> UserData this = 0)
      \<and> (UserDataLength other \<noteq> 0 \<longrightarrow>
            (UserData this, unat (UserDataLength other)) \<in> set (blocks h')
            \<and> (\<forall>(b, s) \<in> set (blocks h). b + s < UserData this)
            \<and> (ExtendedDataCount other \<noteq> 0 \<longrightarrow>
                 ExtendedData this + sizeof_item * length ds + sum_list (map dsize ds) < UserData this)
            \<and> (\<forall>k < unat (UserDataLength other). cells h' (UserData this + k) = cells h (UserData other + k)))"
proof -
  let ?ed = "Suc (heap_end h)"
  let ?S = "sum_list (map dsize ds)"
  let ?tot = "sizeof_item * length ds + ?S"
  let ?c = "ExtendedDataCount other"
  let ?u = "UserDataLength other"
  let ?r1 = "other\<lparr>ExtendedData := (if ds = [] then 0 else ?ed), ExtendedDataCount := ?c\<rparr>"
  have ds0: "ds = [] \<longleftrightarrow> ?c = 0"
    using len by (auto simp: unat_eq_0)
  obtain h3 where
        e1: "set_extended_data_internal ?c (ExtendedData other) (other, h) = Inr (?r1, h3)"
    and e2: "blocks h3 = (if ds = [] then blocks h else (?ed, ?tot) # blocks h)"
    and e3: "\<And>a. a \<le> heap_end h \<Longrightarrow> cells h3 a = cells h a"
    and e4: "\<And>j. j < length ds \<Longrightarrow> cells h3 (?ed + sizeof_item * j) =
            Item ((ds ! j)\<lparr>DataPtr :=
              (if DataSize (ds ! j) = 0 then 0
               else ?ed + sizeof_item * length ds + sum_list (map dsize (take j ds)))\<rparr>)"
    and e5: "\<And>j k. j < length ds \<Longrightarrow> DataSize (ds ! j) \<noteq> 0 \<Longrightarrow> k < dsize (ds ! j) \<Longrightarrow>
               cells h3 (?ed + sizeof_item * length ds + sum_list (map dsize (take j ds)) + k)
                 = cells h (DataPtr (ds ! j) + k)"
    using set_extended_data_internal_spec [OF len nn items, of other] by auto
  have sub: "in_block h a n \<Longrightarrow> in_block h3 a n" for a n
    by (auto simp: in_block_def e2)
  have end3: "heap_end h3 = (if ds = [] then heap_end h else ?ed + ?tot)"
  proof (cases "ds = []")
    case True
    then show ?thesis by (simp add: heap_end_def e2)
  next
    case False
    have "heap_end h3 = max (?ed + ?tot) (heap_end h)"
      using False by (simp add: heap_end_def e2)
    then show ?thesis using False by simp
  qed
  have end_le: "heap_end h \<le> heap_end h3"
    by (simp add: end3)
  let ?ud = "Suc (heap_end h3)"
  let ?r2 = "?r1\<lparr>UserData := (if ?u = 0 then 0 else ?ud), UserDataLength := ?u\<rparr>"
  have user3: "?u \<noteq> 0 \<longrightarrow> UserData other \<noteq> 0 \<and> in_block h3 (UserData other) (unat ?u)"
    using user sub by simp
  obtain h' where
        u1: "set_user_data_internal ?u (UserData other) (?r1, h3) = Inr (?r2, h')"
    and u2: "blocks h' = (if ?u = 0 then blocks h3 else (?ud, unat ?u) # blocks h3)"
    and u3: "\<And>a. a \<le> heap_end h3 \<Longrightarrow> cells h' a = cells h3 a"
    and u4: "\<And>k. k < unat ?u \<Longrightarrow> cells h' (?ud + k) = cells h3 (UserData other + k)"
    using set_user_data_internal_spec [OF user3, of ?r1] by auto
  have run: "event_rec_ctor_copy other h = Inr (?r2, h')"
    using e1 u1 by (simp add: event_rec_ctor_copy_def)
  have old: "cells h' a = cells h a" if "a \<le> heap_end h" for a
    using that u3 [of a] e3 [of a] end_le by simp
  have fresh: "b + s < ?ed" if "(b, s) \<in> set (blocks h)" for b s
    using block_le_heap_end [OF that] by simp
  have fresh_u: "b + s < ?ud" if "(b, s) \<in> set (blocks h)" for b s
    using block_le_heap_end [OF that] end_le by simp
  have item: "\<exists>p. cells h' (?ed + sizeof_item * j) = Item ((ds ! j)\<lparr>DataPtr := p\<rparr>)
            \<and> (DataSize (ds ! j) = 0 \<longrightarrow> p = 0)
            \<and> (DataSize (ds ! j) \<noteq> 0 \<longrightarrow>
                 ?ed + sizeof_item * length ds \<le> p
                 \<and> p + dsize (ds ! j) \<le> ?ed + sizeof_item * length ds + ?S
                 \<and> (\<forall>k < dsize (ds ! j). cells h' (p + k) = cells h (DataPtr (ds ! j) + k)))"
    if j: "j < length ds" for j
  proof -
    let ?p = "if DataSize (ds ! j) = 0 then 0
              else ?ed + sizeof_item * length ds + sum_list (map dsize (take j ds))"
    have ne: "ds \<noteq> []" using j by auto
    have a: "?ed + sizeof_item * j \<le> heap_end h3"
      using j ne by (simp add: end3 sizeof_item_def)
    have c: "cells h' (?ed + sizeof_item * j) = Item ((ds ! j)\<lparr>DataPtr := ?p\<rparr>)"
      using u3 [OF a] e4 [OF j] by simp
    have d: "cells h' (?p + k) = cells h (DataPtr (ds ! j) + k)"
      if nz: "DataSize (ds ! j) \<noteq> 0" and k: "k < dsize (ds ! j)" for k
    proof -
      have "?ed + sizeof_item * length ds + sum_list (map dsize (take j ds)) + k \<le> heap_end h3"
        using sum_take_le [OF j] k ne by (simp add: end3)
      then show ?thesis using u3 e5 [OF j nz k] nz by simp
    qed
    have b: "?p + dsize (ds ! j) \<le> ?ed + sizeof_item * length ds + ?S" if "DataSize (ds ! j) \<noteq> 0"
      using sum_take_le [OF j] that by simp
    show ?thesis
      by (rule exI [of _ ?p]) (use c d b in auto)
  qed
  have usr: "cells h' (?ud + k) = cells h (UserData other + k)" if nz: "?u \<noteq> 0" and k: "k < unat ?u" for k
  proof -
    have ib: "in_block h (UserData other) (unat ?u)" using user nz by simp
    have "UserData other + k \<le> heap_end h"
      using in_block_heap_end [OF ib] k by simp
    then show ?thesis using u4 [OF k] e3 by simp
  qed
  show ?thesis
    apply (rule exI [of _ ?r2], rule exI [of _ h'])
    apply (intro conjI)
    subgoal by (rule run)
    subgoal by simp
    subgoal by simp
    subgoal by simp
    subgoal using old by blast
    subgoal using ds0 by simp
    subgoal using ds0 fresh by (auto simp: u2 e2)
    subgoal using item ds0 by (cases "ds = []") auto
    subgoal by simp
    subgoal using ds0 fresh_u usr by (auto simp: u2 e2 end3)
    done
qed

theorem event_rec_copy_is_deep_witness:
  "\<exists>this h'.
     event_rec_ctor_copy
       \<lparr>EventHeader = (), ExtendedDataCount = 2, UserDataLength = 3, ExtendedData = 10, UserData = 60\<rparr>
       \<lparr>cells = (\<lambda>a. Byte (of_nat a))
          (10 := Item \<lparr>Reserved1 = 0, ExtType = 1, Linkage = 0, DataSize = 2, DataPtr = 50\<rparr>,
           26 := Item \<lparr>Reserved1 = 0, ExtType = 2, Linkage = 0, DataSize = 0, DataPtr = 77\<rparr>),
        blocks = [(10, 32), (50, 2), (60, 3)]\<rparr> = Inr (this, h')
     \<and> ExtendedDataCount this = 2 \<and> UserDataLength this = 3
     \<and> (ExtendedData this, 34) \<in> set (blocks h')
     \<and> 63 < ExtendedData this
     \<and> (UserData this, 3) \<in> set (blocks h')
     \<and> ExtendedData this + 34 < UserData this
     \<and> cells h' (UserData this) = Byte 60
     \<and> cells h' (ExtendedData this + 16)
          = Item \<lparr>Reserved1 = 0, ExtType = 2, Linkage = 0, DataSize = 0, DataPtr = 0\<rparr>"
proof -
  let ?d1 = "\<lparr>Reserved1 = 0, ExtType = 1, Linkage = 0, DataSize = 2, DataPtr = 50\<rparr>"
  let ?d2 = "\<lparr>Reserved1 = 0, ExtType = 2, Linkage = 0, DataSize = 0, DataPtr = 77\<rparr>"
  let ?other = "\<lparr>EventHeader = (), ExtendedDataCount = 2, UserDataLength = 3,
                  ExtendedData = 10, UserData = 60\<rparr>"
  let ?h = "\<lparr>cells = (\<lambda>a. Byte (of_nat a))(10 := Item ?d1, 26 := Item ?d2),
              blocks = [(10, 32), (50, 2), (60, 3)]\<rparr>"
  let ?ds = "[?d1, ?d2]"
  have len: "length ?ds = unat (ExtendedDataCount ?other)"
    by simp
  have nn: "?ds \<noteq> [] \<longrightarrow>
              ExtendedData ?other \<noteq> 0 \<and> in_block ?h (ExtendedData ?other) (sizeof_item * length ?ds)"
    by (simp add: in_block_def sizeof_item_def)
  have items: "\<forall>j<length ?ds. cells ?h (ExtendedData ?other + sizeof_item * j) = Item (?ds ! j)
                 \<and> (DataSize (?ds ! j) \<noteq> 0 \<longrightarrow> in_block ?h (DataPtr (?ds ! j)) (dsize (?ds ! j)))"
    by (simp add: less_Suc_eq in_block_def sizeof_item_def numeral_2_eq_2 all_conj_distrib)
  have user: "UserDataLength ?other \<noteq> 0 \<longrightarrow>
              UserData ?other \<noteq> 0 \<and> in_block ?h (UserData ?other) (unat (UserDataLength ?other))"
    by (simp add: in_block_def)
  have he: "heap_end ?h = 63"
    by (simp add: heap_end_def)
  from event_rec_copy_is_deep [OF len nn items user]
  obtain this h' where
        r: "event_rec_ctor_copy ?other ?h = Inr (this, h')"
    and c: "ExtendedDataCount this = ExtendedDataCount ?other" "UserDataLength this = UserDataLength ?other"
    and e: "ExtendedDataCount ?other \<noteq> 0 \<longrightarrow>
            (ExtendedData this, sizeof_item * length ?ds + sum_list (map dsize ?ds)) \<in> set (blocks h')
            \<and> (\<forall>(b, s) \<in> set (blocks ?h). b + s < ExtendedData this)"
    and i: "\<forall>j<length ?ds. \<exists>p.
            cells h' (ExtendedData this + sizeof_item * j) = Item ((?ds ! j)\<lparr>DataPtr := p\<rparr>)
            \<and> (DataSize (?ds ! j) = 0 \<longrightarrow> p = 0)
            \<and> (DataSize (?ds ! j) \<noteq> 0 \<longrightarrow>
                 ExtendedData this + sizeof_item * length ?ds \<le> p
                 \<and> p + dsize (?ds ! j) \<le> ExtendedData this + sizeof_item * length ?ds + sum_list (map dsize ?ds)
                 \<and> (\<forall>k < dsize (?ds ! j). cells h' (p + k) = cells ?h (DataPtr (?ds ! j) + k)))"
    and u: "UserDataLength ?other \<noteq> 0 \<longrightarrow>
            (UserData this, unat (UserDataLength ?other)) \<in> set (blocks h')
            \<and> (\<forall>(b, s) \<in> set (blocks ?h). b + s < UserData this)
            \<and> (ExtendedDataCount ?other \<noteq> 0 \<longrightarrow>
                 ExtendedData this + sizeof_item * length ?ds + sum_list (map dsize ?ds) < UserData this)
            \<and> (\<forall>k < unat (UserDataLength ?other). cells h' (UserData this + k) = cells ?h (UserData ?other + k))"
    by blast
  have e1: "(ExtendedData this, 34) \<in> set (blocks h')" and e2: "63 < ExtendedData this"
    using e by (simp_all add: sizeof_item_def)
  have u1: "(UserData this, 3) \<in> set (blocks h')" and u2: "ExtendedData this + 34 < UserData this"
    using u by (simp_all add: sizeof_item_def)
  have "\<forall>k < unat (UserDataLength ?other). cells h' (UserData this + k) = cells ?h (UserData ?other + k)"
    using u by simp
  from this [rule_format, of 0] have u3: "cells h' (UserData this) = Byte 60"
    by simp
  have i1: "cells h' (ExtendedData this + 16)
          = Item \<lparr>Reserved1 = 0, ExtType = 2, Linkage = 0, DataSize = 0, DataPtr = 0\<rparr>"
    using i [rule_format, of 1] by (auto simp: sizeof_item_def)
  show ?thesis
    using r c e1 e2 u1 u2 u3 i1 by auto
qed

end
